theory Spec2Isabelle
  imports Complex_Main "HOL-Library.Word" "HOL-Library.Log_Nat"
begin

section \<open>JavaScript values\<close>

text \<open>
  The formula-image code of \<^verbatim>\<open>core/src/image.js\<close> computes with JavaScript numbers,
  strings and \<^verbatim>\<open>undefined\<close>. A number is a binary64 value: NaN, one of the two
  infinities, or a finite value, which is held as the rational it denotes. Every
  arithmetic operation rounds its exact result to the nearest binary64 value (\<open>fl\<close>
  below). The sign of zero is not modelled. A string is a list of 8-bit code units.
\<close>

datatype jsnum = NaN | PInf | NInf | Fin rat

datatype jsval = JUndefined | JBool bool | JNum jsnum | JStr string

fun is_neg :: "jsnum \<Rightarrow> bool" where
  "is_neg (Fin a) = (a < 0)"
| "is_neg NInf = True"
| "is_neg PInf = False"
| "is_neg NaN = False"

fun js_neg :: "jsnum \<Rightarrow> jsnum" where
  "js_neg (Fin a) = Fin (- a)"
| "js_neg PInf = NInf"
| "js_neg NInf = PInf"
| "js_neg NaN = NaN"

subsection \<open>Rounding to binary64\<close>

text \<open>
  The nearest integer to a rational, a tie going to the even one, as the default
  rounding of IEEE 754 does on the significand.
\<close>

definition round_even :: "rat \<Rightarrow> int" where
  "round_even m =
     (let f = \<lfloor>m\<rfloor>; r = m - of_int f
      in if r < 1 / 2 then f else if 1 / 2 < r then f + 1 else if even f then f else f + 1)"

text \<open>For a positive rational \<open>q\<close>, the integer \<open>e\<close> with \<open>2 ^ e \<le> q < 2 ^ (e + 1)\<close>.\<close>

definition exponent_of :: "rat \<Rightarrow> int" where
  "exponent_of q = (if 1 \<le> q then bitlen \<lfloor>q\<rfloor> - 1 else - bitlen (\<lceil>1 / q\<rceil> - 1))"

text \<open>
  The binary64 value nearest to a rational: 53 significant bits, the exponent not
  below \<open>-1022\<close> (below that the spacing stays \<open>2 ^ -1074\<close>), and an infinity when the
  rounded value reaches \<open>2 ^ 1024\<close>.
\<close>

definition fl :: "rat \<Rightarrow> jsnum" where
  "fl q =
     (if q = 0 then Fin 0
      else
        (let e = max (exponent_of \<bar>q\<bar>) (- 1022);
             u = 2 powi (e - 52);
             y = of_int (round_even (\<bar>q\<bar> / u)) * u
         in if 1023 \<le> e then
              (if 2 powi 1024 \<le> y then (if q < 0 then NInf else PInf)
               else Fin (if q < 0 then - y else y))
            else Fin (if q < 0 then - y else y)))"

subsection \<open>Arithmetic\<close>

text \<open>
  The operators \<^verbatim>\<open>*\<close>, \<^verbatim>\<open>/\<close> and \<^verbatim>\<open>-\<close> on numbers: the exact result of two finite
  operands is rounded to binary64.
\<close>

definition js_mul :: "jsnum \<Rightarrow> jsnum \<Rightarrow> jsnum" where
  "js_mul x y =
     (case (x, y) of
        (Fin a, Fin b) \<Rightarrow> fl (a * b)
      | _ \<Rightarrow> if x = NaN \<or> y = NaN \<or> x = Fin 0 \<or> y = Fin 0 then NaN
             else if is_neg x = is_neg y then PInf else NInf)"

definition js_div :: "jsnum \<Rightarrow> jsnum \<Rightarrow> jsnum" where
  "js_div x y =
     (case (x, y) of
        (Fin a, Fin b) \<Rightarrow>
          if b = 0 then (if a = 0 then NaN else if 0 < a then PInf else NInf)
          else fl (a / b)
      | (Fin a, _) \<Rightarrow> if y = NaN then NaN else Fin 0
      | (_, Fin b) \<Rightarrow> if x = NaN then NaN else if is_neg x = (b < 0) then PInf else NInf
      | _ \<Rightarrow> NaN)"

definition js_sub :: "jsnum \<Rightarrow> jsnum \<Rightarrow> jsnum" where
  "js_sub x y =
     (case (x, y) of
        (Fin a, Fin b) \<Rightarrow> fl (a - b)
      | (Fin a, PInf) \<Rightarrow> NInf
      | (Fin a, NInf) \<Rightarrow> PInf
      | (PInf, Fin b) \<Rightarrow> PInf
      | (NInf, Fin b) \<Rightarrow> NInf
      | (PInf, NInf) \<Rightarrow> PInf
      | (NInf, PInf) \<Rightarrow> NInf
      | _ \<Rightarrow> NaN)"

text \<open>
  \<^verbatim>\<open>Math.round\<close>: the nearest integer, a tie going up. The result is exact: a binary64
  value of \<open>2 ^ 52\<close> or more is an integer already.
\<close>

fun js_round :: "jsnum \<Rightarrow> jsnum" where
  "js_round (Fin a) = Fin (of_int \<lfloor>a + 1 / 2\<rfloor>)"
| "js_round x = x"

text \<open>Truthiness (\<^verbatim>\<open>if (x)\<close>, \<^verbatim>\<open>!x\<close>) and \<^verbatim>\<open>typeof\<close>.\<close>

fun js_truthy :: "jsval \<Rightarrow> bool" where
  "js_truthy JUndefined = False"
| "js_truthy (JBool b) = b"
| "js_truthy (JNum n) = (n \<noteq> NaN \<and> n \<noteq> Fin 0)"
| "js_truthy (JStr s) = (s \<noteq> [])"

fun js_typeof :: "jsval \<Rightarrow> string" where
  "js_typeof JUndefined = ''undefined''"
| "js_typeof (JBool b) = ''boolean''"
| "js_typeof (JNum n) = ''number''"
| "js_typeof (JStr s) = ''string''"

subsection \<open>Strings to numbers\<close>

text \<open>
  The conversion the arithmetic operators apply to a string operand (StringToNumber of
  ECMA-262): white space is trimmed, the empty string is 0, then a binary, octal or
  hexadecimal integer literal or a signed decimal literal with optional fraction and
  exponent; anything else is NaN. The value of a literal is rounded to binary64.
\<close>

definition is_ws :: "char \<Rightarrow> bool" where
  "is_ws c = (c \<in> set [CHR 0x09, CHR 0x0A, CHR 0x0B, CHR 0x0C, CHR 0x0D, CHR 0x20, CHR 0xA0])"

definition trim :: "string \<Rightarrow> string" where
  "trim s = rev (dropWhile is_ws (rev (dropWhile is_ws s)))"

definition digit_of :: "char \<Rightarrow> nat option" where
  "digit_of c =
     (let n = (of_char c :: nat) in
      if 48 \<le> n \<and> n \<le> 57 then Some (n - 48)
      else if 97 \<le> n \<and> n \<le> 102 then Some (n - 87)
      else if 65 \<le> n \<and> n \<le> 70 then Some (n - 55)
      else None)"

definition is_digit :: "nat \<Rightarrow> char \<Rightarrow> bool" where
  "is_digit base c = (case digit_of c of None \<Rightarrow> False | Some d \<Rightarrow> d < base)"

definition digits_value :: "nat \<Rightarrow> string \<Rightarrow> nat" where
  "digits_value base s =
     foldl (\<lambda>a c. a * base + (case digit_of c of None \<Rightarrow> 0 | Some d \<Rightarrow> d)) 0 s"

definition radix_literal :: "nat \<Rightarrow> string \<Rightarrow> jsnum" where
  "radix_literal base ds =
     (if ds \<noteq> [] \<and> list_all (is_digit base) ds then fl (of_nat (digits_value base ds))
      else NaN)"

definition exponent_part :: "string \<Rightarrow> int option" where
  "exponent_part s =
     (if s = [] then Some 0
      else if hd s = CHR ''e'' \<or> hd s = CHR ''E'' then
        (let t = tl s;
             signed = (t \<noteq> [] \<and> (hd t = CHR ''-'' \<or> hd t = CHR ''+''));
             ds = (if signed then tl t else t)
         in if ds \<noteq> [] \<and> list_all (is_digit 10) ds
            then Some (if signed \<and> hd t = CHR ''-'' then - int (digits_value 10 ds)
                       else int (digits_value 10 ds))
            else None)
      else None)"

definition unsigned_decimal :: "string \<Rightarrow> jsnum" where
  "unsigned_decimal s =
     (if s = ''Infinity'' then PInf
      else
        let ip = takeWhile (is_digit 10) s;
            r1 = dropWhile (is_digit 10) s;
            dot = (r1 \<noteq> [] \<and> hd r1 = CHR ''.'');
            fp = (if dot then takeWhile (is_digit 10) (tl r1) else []);
            r2 = (if dot then dropWhile (is_digit 10) (tl r1) else r1)
        in if ip = [] \<and> fp = [] then NaN
           else (case exponent_part r2 of
                   None \<Rightarrow> NaN
                 | Some e \<Rightarrow>
                     (let m = (of_nat (digits_value 10 (ip @ fp)) :: rat);
                          k = e - int (length fp)
                      in if 0 \<le> k then fl (m * 10 ^ nat k) else fl (m / 10 ^ nat (- k)))))"

definition string_to_number :: "string \<Rightarrow> jsnum" where
  "string_to_number s0 =
     (let s = trim s0 in
      if s = [] then Fin 0
      else if take 2 s = ''0x'' \<or> take 2 s = ''0X'' then radix_literal 16 (drop 2 s)
      else if take 2 s = ''0o'' \<or> take 2 s = ''0O'' then radix_literal 8 (drop 2 s)
      else if take 2 s = ''0b'' \<or> take 2 s = ''0B'' then radix_literal 2 (drop 2 s)
      else if hd s = CHR ''-'' then js_neg (unsigned_decimal (tl s))
      else if hd s = CHR ''+'' then unsigned_decimal (tl s)
      else unsigned_decimal s)"

fun to_number :: "jsval \<Rightarrow> jsnum" where
  "to_number JUndefined = NaN"
| "to_number (JBool b) = Fin (if b then 1 else 0)"
| "to_number (JNum n) = n"
| "to_number (JStr s) = string_to_number s"

subsection \<open>String methods\<close>

text \<open>
  \<^verbatim>\<open>s.indexOf(pat, pos)\<close>: the least index at or after \<open>pos\<close> (clamped to the string)
  where \<open>pat\<close> occurs, or \<open>-1\<close>. The source passes a third argument in three calls;
  \<^verbatim>\<open>indexOf\<close> ignores it.
\<close>

fun find_from :: "string \<Rightarrow> string \<Rightarrow> nat \<Rightarrow> int" where
  "find_from pat [] i = (if pat = [] then int i else - 1)"
| "find_from pat (c # cs) i =
     (if take (length pat) (c # cs) = pat then int i else find_from pat cs (Suc i))"

definition js_indexOf :: "string \<Rightarrow> string \<Rightarrow> int \<Rightarrow> int" where
  "js_indexOf s pat pos =
     (let k = nat (min (max pos 0) (int (length s))) in find_from pat (drop k s) k)"

text \<open>
  \<^verbatim>\<open>s.substring(a, b)\<close>: both arguments are clamped to the string and swapped when
  \<open>a > b\<close>. \<^verbatim>\<open>s.substr(start, len)\<close>: a negative start counts from the end.
\<close>

definition js_substring :: "string \<Rightarrow> int \<Rightarrow> int \<Rightarrow> string" where
  "js_substring s a b =
     (let n = int (length s);
          a' = min (max a 0) n;
          b' = min (max b 0) n;
          lo = nat (min a' b');
          hi = nat (max a' b')
      in take (hi - lo) (drop lo s))"

definition js_substr :: "string \<Rightarrow> int \<Rightarrow> int \<Rightarrow> string" where
  "js_substr s start len =
     (let n = int (length s);
          st = (if start < 0 then max (n + start) 0 else min start n);
          l = min (max len 0) (n - st)
      in take (nat l) (drop (nat st) s))"

section \<open>Errors and the byte cursor\<close>

datatype error = OutOfBounds | InvalidEncoding | TypeError | URIError

datatype 'a result = Ok 'a | Throw error

type_synonym byte = "8 word"

text \<open>
  Modelled from the spec: \<^verbatim>\<open>Util.readBytes\<close> of \<^verbatim>\<open>util.js\<close>, which is not among the
  sources. Section 4.1: it returns the next \<open>n\<close> bytes and advances by \<open>n\<close>, and fails
  with OutOfBounds when fewer than \<open>n\<close> bytes remain. The array the caller holds is the
  unread remainder (the loop of \<^verbatim>\<open>getMetricsFromBytes\<close> tests \<^verbatim>\<open>bytes.length\<close>), so the
  cursor is the list of bytes still to read; the source calls it at position 0.
\<close>

definition readBytes :: "byte list \<Rightarrow> nat \<Rightarrow> (byte list \<times> byte list) result" where
  "readBytes bytes n =
     (if length bytes < n then Throw OutOfBounds else Ok (take n bytes, drop n bytes))"

text \<open>
  Modelled from the spec: \<^verbatim>\<open>Util.readByte\<close> of \<^verbatim>\<open>util.js\<close>. Section 4.1: it returns
  one byte and advances by 1; reading past the end is OutOfBounds (section 7).
\<close>

definition readByte :: "byte list \<Rightarrow> (nat \<times> byte list) result" where
  "readByte bytes = (case bytes of [] \<Rightarrow> Throw OutOfBounds | b # rest \<Rightarrow> Ok (unat b, rest))"

text \<open>
  Modelled from the spec: the value \<^verbatim>\<open>Util.readInt32\<close> of \<^verbatim>\<open>util.js\<close> returns for four
  bytes. Section 4.1: they are read as a big-endian unsigned 32-bit integer.
\<close>

definition be32 :: "byte \<Rightarrow> byte \<Rightarrow> byte \<Rightarrow> byte \<Rightarrow> nat" where
  "be32 b0 b1 b2 b3 = unat b0 * 16777216 + unat b1 * 65536 + unat b2 * 256 + unat b3"

text \<open>
  Modelled from the spec: \<^verbatim>\<open>Util.readInt32\<close> of \<^verbatim>\<open>util.js\<close>, which is not among the
  sources. Section 4.1: it reads 4 bytes as a big-endian unsigned 32-bit integer and
  advances by 4, and fails with OutOfBounds when fewer than 4 bytes remain.
\<close>

definition readInt32 :: "byte list \<Rightarrow> (nat \<times> byte list) result" where
  "readInt32 bytes =
     (case bytes of
        b0 # b1 # b2 # b3 # rest \<Rightarrow> Ok (be32 b0 b1 b2 b3, rest)
      | _ \<Rightarrow> Throw OutOfBounds)"

text \<open>An exception of a call ends the calls that follow it.\<close>

definition bind :: "'a result \<Rightarrow> ('a \<Rightarrow> 'b result) \<Rightarrow> 'b result" where
  "bind r f = (case r of Throw e \<Rightarrow> Throw e | Ok x \<Rightarrow> f x)"

section \<open>The PNG metrics parser\<close>

text \<open>
  The result of a parser: the array \<^verbatim>\<open>arr\<close> with the keys \<^verbatim>\<open>cw\<close>, \<^verbatim>\<open>ch\<close>,
  \<^verbatim>\<open>cb\<close> and \<^verbatim>\<open>dpi\<close>. A key that was never set reads as \<^verbatim>\<open>undefined\<close>.
\<close>

type_synonym metrics = "string \<rightharpoonup> jsval"

definition js_get :: "metrics \<Rightarrow> string \<Rightarrow> jsval" where
  "js_get ar k = (case ar k of None \<Rightarrow> JUndefined | Some v \<Rightarrow> v)"

text \<open>
  The function-scoped variables of \<^verbatim>\<open>getMetricsFromBytes\<close> that the loop assigns; each
  is \<^verbatim>\<open>undefined\<close> until a chunk sets it.
\<close>

record png_vars =
  v_width :: jsval
  v_height :: jsval
  v_baseline :: jsval
  v_dpi :: jsval

definition init_vars :: png_vars where
  "init_vars = \<lparr>v_width = JUndefined, v_height = JUndefined,
                 v_baseline = JUndefined, v_dpi = JUndefined\<rparr>"

text \<open>
  The number \<^verbatim>\<open>Util.readInt32\<close> returns, as a value: an integer below \<open>2 ^ 32\<close> is a
  binary64 value.
\<close>

definition num :: "nat \<Rightarrow> jsval" where
  "num n = JNum (Fin (of_nat n))"

text \<open>
  The pixels-per-metre to dpi conversion \<^verbatim>\<open>Math.round(dpi / 39.37)\<close>. The literal
  \<^verbatim>\<open>39.37\<close> is the binary64 value nearest to \<open>3937 / 100\<close>, and the division rounds.
\<close>

definition dpi_of :: "nat \<Rightarrow> jsval" where
  "dpi_of v = JNum (js_round (js_div (Fin (of_nat v)) (fl (3937 / 100))))"

text \<open>
  One pass of the loop body (lines 157 to 173): the length, the type, the fields of
  the three known chunk types, and the final 4-byte read.
\<close>

definition chunk_body :: "png_vars \<Rightarrow> byte list \<Rightarrow> (png_vars \<times> byte list) result" where
  "chunk_body vs bytes =
     bind (readInt32 bytes) (\<lambda>(len, b1).
     bind (readInt32 b1) (\<lambda>(typ, b2).
     bind
       (if typ = 0x49484452 then
          bind (readInt32 b2) (\<lambda>(w, c1).
          bind (readInt32 c1) (\<lambda>(h, c2).
          bind (readInt32 c2) (\<lambda>(x, c3).
          bind (readByte c3) (\<lambda>(y, c4).
          Ok (vs\<lparr>v_width := num w, v_height := num h\<rparr>, c4)))))
        else if typ = 0x62615345 then
          bind (readInt32 b2) (\<lambda>(b, c1).
          Ok (vs\<lparr>v_baseline := num b\<rparr>, c1))
        else if typ = 0x70485973 then
          bind (readInt32 b2) (\<lambda>(d, c1).
          bind (readInt32 c1) (\<lambda>(x, c2).
          bind (readByte c2) (\<lambda>(y, c3).
          Ok (vs\<lparr>v_dpi := dpi_of d\<rparr>, c3))))
        else Ok (vs, b2))
       (\<lambda>(vs', b3).
     bind (readInt32 b3) (\<lambda>(crc, b4).
     Ok (vs', b4)))))"

text \<open>
  The loop \<^verbatim>\<open>while (bytes.length >= 4)\<close> of lines 156 to 174. An exception of a read
  leaves the loop and the function.
\<close>

function chunk_loop :: "png_vars \<Rightarrow> byte list \<Rightarrow> png_vars result" where
  "chunk_loop vs bytes =
     (if 4 \<le> length bytes then
        (case chunk_body vs bytes of
           Throw e \<Rightarrow> Throw e
         | Ok (vs', bytes') \<Rightarrow> chunk_loop vs' bytes')
      else Ok vs)"
  by pat_completeness auto
termination
  by (relation "measure (\<lambda>(vs, bytes). length bytes)")
     (auto simp: chunk_body_def bind_def readInt32_def readByte_def
           split: list.splits if_splits result.splits prod.splits)

declare chunk_loop.simps [simp del]

text \<open>Lines 176 to 186: the array is built only when \<^verbatim>\<open>width\<close> was assigned.\<close>

definition png_result :: "png_vars \<Rightarrow> metrics option" where
  "png_result vs =
     (if js_typeof (v_width vs) \<noteq> ''undefined'' then
        (let arr = [''cw'' \<mapsto> v_width vs, ''ch'' \<mapsto> v_height vs, ''dpi'' \<mapsto> v_dpi vs]
         in Some (if js_truthy (v_baseline vs) then arr(''cb'' \<mapsto> v_baseline vs) else arr))
      else None)"

definition getMetricsFromBytes :: "byte list \<Rightarrow> metrics option result" where
  "getMetricsFromBytes bytes =
     bind (readBytes bytes 8) (\<lambda>(sig, rest).
     bind (chunk_loop init_vars rest) (\<lambda>vs.
     Ok (png_result vs)))"

section \<open>The SVG metrics parser\<close>

text \<open>
  Lines 121 to 144. The guard \<^verbatim>\<open>typeof(width != 'undefined')\<close> takes the type of a
  comparison, and the guard on the baseline the type of a string.
\<close>

definition getMetricsFromSvgString :: "string \<Rightarrow> metrics option" where
  "getMetricsFromSvgString svgString =
     (let first1 = js_indexOf svgString ''height=\"'' 0;
          last1 = js_indexOf svgString ''\"'' (first1 + 8);
          height = js_substring svgString (first1 + 8) last1;
          first2 = js_indexOf svgString ''width=\"'' 0;
          last2 = js_indexOf svgString ''\"'' (first2 + 7);
          width = js_substring svgString (first2 + 7) last2;
          first3 = js_indexOf svgString ''wrs:baseline=\"'' 0;
          last3 = js_indexOf svgString ''\"'' (first3 + 14);
          baseline = js_substring svgString (first3 + 14) last3
      in if js_truthy (JStr (js_typeof (JBool (width \<noteq> ''undefined'')))) then
           (let arr = [''cw'' \<mapsto> JStr width, ''ch'' \<mapsto> JStr height]
            in Some (if js_typeof (JStr baseline) \<noteq> ''undefined''
                     then arr(''cb'' \<mapsto> JStr baseline) else arr))
         else None)"

section \<open>Decoders of the utility module\<close>

text \<open>
  Modelled from the spec: the alphabet of standard base64, which section 4.2 names for
  \<^verbatim>\<open>Util.b64ToByteArray\<close>: the value of a character, if it is in the alphabet.
\<close>

definition b64_value :: "char \<Rightarrow> nat option" where
  "b64_value c =
     (let n = (of_char c :: nat) in
      if 65 \<le> n \<and> n \<le> 90 then Some (n - 65)
      else if 97 \<le> n \<and> n \<le> 122 then Some (n - 71)
      else if 48 \<le> n \<and> n \<le> 57 then Some (n + 4)
      else if n = 43 then Some 62
      else if n = 47 then Some 63
      else None)"

text \<open>
  Modelled from the spec: the bytes of one group of standard base64 (section 4.2), from
  the values of its two, three or four characters.
\<close>

definition sextets_bytes :: "nat list \<Rightarrow> byte list" where
  "sextets_bytes vs =
     (case vs of
        [a, b] \<Rightarrow> [of_nat (a * 4 + b div 16)]
      | [a, b, c] \<Rightarrow> [of_nat (a * 4 + b div 16), of_nat ((b mod 16) * 16 + c div 4)]
      | [a, b, c, d] \<Rightarrow>
          [of_nat (a * 4 + b div 16), of_nat ((b mod 16) * 16 + c div 4),
           of_nat ((c mod 4) * 64 + d)]
      | _ \<Rightarrow> [])"

text \<open>
  Modelled from the spec: one group of \<^verbatim>\<open>Util.b64ToByteArray\<close>. Section 4.2: the padding
  of standard base64 is accepted, and a character outside the alphabet that is not
  padding is InvalidEncoding.
\<close>

definition b64_group :: "string \<Rightarrow> byte list result" where
  "b64_group g =
     (let cs = (if length g = 4 then rev (dropWhile (\<lambda>c. c = CHR ''='') (rev g)) else g)
      in if length cs < 2 \<or> \<not> list_all (\<lambda>c. b64_value c \<noteq> None) cs then Throw InvalidEncoding
         else Ok (sextets_bytes (map (\<lambda>c. case b64_value c of None \<Rightarrow> 0 | Some v \<Rightarrow> v) cs)))"

text \<open>
  Modelled from the spec: \<^verbatim>\<open>Util.b64ToByteArray\<close> of \<^verbatim>\<open>util.js\<close>, which is not among
  the sources. Section 4.2: it decodes standard base64 into bytes, stops once the
  maximum length is reached, accepts the padding of the last group, and fails with
  InvalidEncoding on malformed input. Padding before the last group is taken as
  malformed.
\<close>

fun b64ToByteArray :: "string \<Rightarrow> nat \<Rightarrow> byte list result" where
  "b64ToByteArray (a # b # c # d # e # rest) cap =
     (if cap = 0 then Ok []
      else bind (b64_group [a, b, c, d]) (\<lambda>q.
           if length q < 3 then Throw InvalidEncoding
           else bind (b64ToByteArray (e # rest) (cap - 3)) (\<lambda>r.
                Ok (take cap (q @ r)))))"
| "b64ToByteArray s cap =
     (if cap = 0 \<or> s = [] then Ok []
      else bind (b64_group s) (\<lambda>q. Ok (take cap q)))"

text \<open>
  Modelled from the spec: the pieces of a query string between separators, for
  \<^verbatim>\<open>Util.urlToAssArray\<close> (section 4.5).
\<close>

fun split_on :: "char \<Rightarrow> string \<Rightarrow> string list" where
  "split_on sep [] = [[]]"
| "split_on sep (c # cs) =
     (if c = sep then [] # split_on sep cs
      else (case split_on sep cs of [] \<Rightarrow> [[c]] | x # xs \<Rightarrow> (c # x) # xs))"

text \<open>
  Modelled from the spec: \<^verbatim>\<open>Util.urlToAssArray\<close> of \<^verbatim>\<open>util.js\<close>, which is not among
  the sources. Section 4.5: it parses the query-string suffix of a URL into a key/value
  mapping with the keys \<^verbatim>\<open>cw\<close>, \<^verbatim>\<open>ch\<close>, \<^verbatim>\<open>cb\<close> and \<^verbatim>\<open>dpi\<close>; other keys are ignored
  and a missing key stays absent. The values are the strings of the query.
\<close>

definition urlToAssArray :: "string \<Rightarrow> metrics" where
  "urlToAssArray url =
     (let q = drop 1 (dropWhile (\<lambda>c. c \<noteq> CHR ''?'') url)
      in foldl
           (\<lambda>m kv.
              (let k = takeWhile (\<lambda>c. c \<noteq> CHR ''='') kv;
                   v = drop 1 (dropWhile (\<lambda>c. c \<noteq> CHR ''='') kv)
               in if k = ''cw'' \<or> k = ''ch'' \<or> k = ''cb'' \<or> k = ''dpi'' then m(k \<mapsto> JStr v) else m))
           Map.empty (split_on CHR ''&'' q))"

section \<open>Sizing an image\<close>

text \<open>
  The image element, as far as the code touches it: the \<^verbatim>\<open>src\<close> it reads, and the
  \<^verbatim>\<open>width\<close>, \<^verbatim>\<open>height\<close>, \<^verbatim>\<open>style.verticalAlign\<close> and \<^verbatim>\<open>style.maxWidth\<close> it writes.
  A field is \<open>None\<close> while nothing is written there. What the browser does with an
  assigned value is outside the code and not modelled, and neither are the other
  properties of the style. The value assigned
  to \<^verbatim>\<open>style.verticalAlign\<close> is always the string \<^verbatim>\<open>"-" + n + "px"\<close> for a number \<open>n\<close>;
  \<open>NegPx n\<close> stands for that string, so \<open>NegPx (Fin 10)\<close> is \<^verbatim>\<open>"-10px"\<close> and \<open>NegPx NaN\<close>
  is \<^verbatim>\<open>"-NaNpx"\<close>.
\<close>

datatype css = NegPx jsnum

record img =
  img_src :: string
  img_width :: "jsval option"
  img_height :: "jsval option"
  style_verticalAlign :: "css option"
  style_maxWidth :: "string option"

record config =
  imageFormat :: string
  saveMode :: string

text \<open>The expression \<^verbatim>\<open>x * 96 / dpi\<close> of lines 80 to 82.\<close>

definition scale96 :: "jsval \<Rightarrow> jsval \<Rightarrow> jsnum" where
  "scale96 x dpi = js_div (js_mul (to_number x) (Fin 96)) (to_number dpi)"

text \<open>Lines 72 to 86 of \<^verbatim>\<open>setImgSize\<close>, once \<^verbatim>\<open>ar\<close> is an array.\<close>

definition applyMetrics :: "metrics \<Rightarrow> img \<Rightarrow> img" where
  "applyMetrics ar img =
     (let width = js_get ar ''cw'' in
      if \<not> js_truthy width then img
      else
        (let height = js_get ar ''ch'';
             baseline = js_get ar ''cb'';
             dpi = js_get ar ''dpi'';
             scaled = js_truthy dpi;
             width' = (if scaled then JNum (scale96 width dpi) else width);
             height' = (if scaled then JNum (scale96 height dpi) else height);
             baseline' = (if scaled then JNum (scale96 baseline dpi) else baseline)
         in img\<lparr>img_width := Some width', img_height := Some height',
                style_verticalAlign :=
                  Some (NegPx (js_sub (to_number height') (to_number baseline')))\<rparr>))"

text \<open>\<^verbatim>\<open>String.fromCharCode\<close> of a byte (line 58).\<close>

definition fromCharCode :: "byte \<Rightarrow> char" where
  "fromCharCode b = char_of (unat b)"

text \<open>
  The expression \<^verbatim>\<open>img.src.substr(img.src.indexOf('base64,') + 7, img.src.length)\<close> of
  lines 54 and 64.
\<close>

definition payload_of_src :: "img \<Rightarrow> string" where
  "payload_of_src img =
     js_substr (img_src img) (js_indexOf (img_src img) ''base64,'' 0 + 7)
       (int (length (img_src img)))"

text \<open>
  \<^verbatim>\<open>setImgSize\<close>, lines 45 to 87. The result is the exception the call ends with, if
  any, and the image after the call. Reading \<^verbatim>\<open>ar['cw']\<close> of an \<^verbatim>\<open>undefined\<close> array
  is a TypeError.
\<close>

definition setImgSize :: "config \<Rightarrow> img \<Rightarrow> string \<Rightarrow> bool \<Rightarrow> error option \<times> img" where
  "setImgSize cfg img uri jsonResponse =
     (let ar =
        (if jsonResponse then
           (if imageFormat cfg = ''svg'' then
              (if saveMode cfg \<noteq> ''base64'' then Ok (getMetricsFromSvgString uri)
               else
                 (let base64String = payload_of_src img
                  in bind (b64ToByteArray base64String (length base64String)) (\<lambda>bytes.
                     Ok (getMetricsFromSvgString (map fromCharCode bytes)))))
            else
              (let base64String = payload_of_src img
               in bind (b64ToByteArray base64String 88) getMetricsFromBytes))
         else Ok (Some (urlToAssArray uri)))
      in case ar of
           Throw e \<Rightarrow> (Some e, img)
         | Ok None \<Rightarrow> (Some TypeError, img)
         | Ok (Some a) \<Rightarrow> (None, applyMetrics a img))"

text \<open>
  \<^verbatim>\<open>fixAfterResize\<close>, lines 93 to 113. \<^verbatim>\<open>decodeURIComponent\<close> is the host's function
  and is a parameter: it returns the decoded text or raises (a URIError on a malformed
  escape). The final call passes no third argument, which reads as false.
\<close>

definition fixAfterResize ::
  "(string \<Rightarrow> string result) \<Rightarrow> config \<Rightarrow> img \<Rightarrow> error option \<times> img" where
  "fixAfterResize decodeURIComponent cfg img0 =
     (let img = img0\<lparr>img_width := None, img_height := None,
                     style_verticalAlign := None, style_maxWidth := Some ''none''\<rparr>;
          src = img_src img
      in if js_indexOf src ''data:image'' 0 \<noteq> - 1 then
           (if imageFormat cfg = ''svg'' then
              (case decodeURIComponent (js_substring src 32 (int (length src))) of
                 Throw e \<Rightarrow> (Some e, img)
               | Ok svg \<Rightarrow> setImgSize cfg img svg True)
            else
              (let base64 = js_substring src 22 (int (length src))
               in setImgSize cfg img base64 True))
         else setImgSize cfg img src False)"

text \<open>
  The loop with a bound on its passes: \<open>None\<close> when the bound is used up before the loop
  has left. It is compared with \<open>chunk_loop\<close> below.
\<close>

fun loop_fuel :: "nat \<Rightarrow> png_vars \<Rightarrow> byte list \<Rightarrow> png_vars result option" where
  "loop_fuel 0 vs bytes = None"
| "loop_fuel (Suc n) vs bytes =
     (if 4 \<le> length bytes then
        (case chunk_body vs bytes of
           Throw e \<Rightarrow> Some (Throw e)
         | Ok (vs', bytes') \<Rightarrow> loop_fuel n vs' bytes')
      else Some (Ok vs))"

section \<open>The chunk layout of a PNG payload\<close>

text \<open>
  The payload format of section 6 of the spec: an 8-byte signature, then chunks, each a
  4-byte big-endian length, a 4-byte type, the data, and a 4-byte CRC. These
  definitions describe inputs; the parser above does not use them.
\<close>

type_synonym quad = "byte \<times> byte \<times> byte \<times> byte"

record chunk =
  c_type :: quad
  c_data :: "byte list"
  c_crc :: quad

definition quad_bytes :: "quad \<Rightarrow> byte list" where
  "quad_bytes q = (case q of (a, b, c, d) \<Rightarrow> [a, b, c, d])"

definition u32_bytes :: "nat \<Rightarrow> byte list" where
  "u32_bytes n = [of_nat (n div 16777216), of_nat (n div 65536), of_nat (n div 256), of_nat n]"

definition encode_chunk :: "chunk \<Rightarrow> byte list" where
  "encode_chunk c =
     u32_bytes (length (c_data c)) @ quad_bytes (c_type c) @ c_data c @ quad_bytes (c_crc c)"

definition type_code :: "chunk \<Rightarrow> nat" where
  "type_code c = (case c_type c of (a, b, c, d) \<Rightarrow> be32 a b c d)"

definition u32 :: "byte list \<Rightarrow> nat" where
  "u32 bs = (case bs of [a, b, c, d] \<Rightarrow> be32 a b c d | _ \<Rightarrow> 0)"

text \<open>The big-endian integer in the four bytes of a chunk body that start at an offset.\<close>

definition field_u32 :: "byte list \<Rightarrow> nat \<Rightarrow> nat" where
  "field_u32 d off = u32 (take 4 (drop off d))"

text \<open>
  A chunk fits the parser when its body has the size the parser reads for its type:
  13 bytes for IHDR, 4 for baSE, 9 for pHYs, and none for any other type.
\<close>

definition fits :: "chunk \<Rightarrow> bool" where
  "fits c =
     (length (c_data c) =
        (if type_code c = 0x49484452 then 13
         else if type_code c = 0x62615345 then 4
         else if type_code c = 0x70485973 then 9
         else 0))"

text \<open>What a chunk that fits leaves in the variables of the parser.\<close>

definition absorb :: "png_vars \<Rightarrow> chunk \<Rightarrow> png_vars" where
  "absorb vs c =
     (if type_code c = 0x49484452 then
        vs\<lparr>v_width := num (field_u32 (c_data c) 0), v_height := num (field_u32 (c_data c) 4)\<rparr>
      else if type_code c = 0x62615345 then vs\<lparr>v_baseline := num (field_u32 (c_data c) 0)\<rparr>
      else if type_code c = 0x70485973 then vs\<lparr>v_dpi := dpi_of (field_u32 (c_data c) 0)\<rparr>
      else vs)"

text \<open>The entry of a key in the array a parser returned, if it returned one.\<close>

definition result_get :: "metrics option result \<Rightarrow> string \<Rightarrow> jsval option" where
  "result_get r k = (case r of Ok (Some m) \<Rightarrow> Some (js_get m k) | _ \<Rightarrow> None)"

text \<open>The signature every PNG file starts with.\<close>

definition png_signature :: "byte list" where
  "png_signature = [0x89, 0x50, 0x4E, 0x47, 0x0D, 0x0A, 0x1A, 0x0A]"

section \<open>Statements about sizing\<close>

text \<open>
  Direct PNG parsing and normalisation of raw bytes: the parser, then lines 72 to 86 on
  its result. This is what \<^verbatim>\<open>setImgSize\<close> does in the raster branch once the payload
  is decoded.
\<close>

definition direct_png :: "byte list \<Rightarrow> img \<Rightarrow> error option \<times> img" where
  "direct_png bytes img =
     (case getMetricsFromBytes bytes of
        Throw e \<Rightarrow> (Some e, img)
      | Ok None \<Rightarrow> (Some TypeError, img)
      | Ok (Some a) \<Rightarrow> (None, applyMetrics a img))"

text \<open>
  The first four statements of \<^verbatim>\<open>fixAfterResize\<close>: the style, width and height are
  removed and \<^verbatim>\<open>max-width\<close> is set to \<^verbatim>\<open>none\<close>.
\<close>

definition unsized :: "img \<Rightarrow> img" where
  "unsized img = img\<lparr>img_width := None, img_height := None,
                     style_verticalAlign := None, style_maxWidth := Some ''none''\<rparr>"

text \<open>
  In the text \<open>s\<close>, the first occurrence of the attribute name (with its \<^verbatim>\<open>="\<close>) is
  followed at once by the value \<open>v\<close>, which holds no double quote, and a double quote.
\<close>

definition attr_value_at :: "string \<Rightarrow> string \<Rightarrow> string \<Rightarrow> bool" where
  "attr_value_at s name v =
     (let i = js_indexOf s name 0
      in 0 \<le> i \<and> CHR 0x22 \<notin> set v
         \<and> take (length v + 1) (drop (nat i + length name) s) = v @ [CHR 0x22])"

text \<open>
  An image whose \<^verbatim>\<open>src\<close> is the data URI of a 131-byte PNG file: signature, IHDR
  (100 by 50), baSE (40), a private chunk \<^verbatim>\<open>prVt\<close> with a 58-byte body, IEND, each chunk
  with its correct CRC. The file is written out in \<open>resized_bytes\<close>.
\<close>

definition resized_src :: string where
  "resized_src = ''data:image/png;base64,'' @
     ''iVBORw0KGgoAAAANSUhEUgAAAGQAAAAyCAYAAACqNX6+AAAABGJhU0UAAAAo9ZE6ZAAAADpwclZ0AAAAAAAAAAAAAAAAAAAAAAAAAAAAAAAAAAAAAAAAAABwSFlzAAAdhwAAAAAAAAAAAAAAAAAAAAAAAGmS2FkAAAAASUVORK5CYII=''"

definition resized_img :: img where
  "resized_img = \<lparr>img_src = resized_src, img_width = Some (num 300), img_height = Some (num 150),
       style_verticalAlign = None, style_maxWidth = None\<rparr>"

definition resized_bytes :: "byte list" where
  "resized_bytes =
[0x89, 0x50, 0x4E, 0x47, 0x0D, 0x0A, 0x1A, 0x0A, 0x00, 0x00, 0x00, 0x0D, 0x49, 0x48, 0x44, 0x52,
 0x00, 0x00, 0x00, 0x64, 0x00, 0x00, 0x00, 0x32, 0x08, 0x06, 0x00, 0x00, 0x00, 0xAA, 0x35, 0x7E,
 0xBE, 0x00, 0x00, 0x00, 0x04, 0x62, 0x61, 0x53, 0x45, 0x00, 0x00, 0x00, 0x28, 0xF5, 0x91, 0x3A,
 0x64, 0x00, 0x00, 0x00, 0x3A, 0x70, 0x72, 0x56, 0x74, 0x00, 0x00, 0x00, 0x00, 0x00, 0x00, 0x00,
 0x00, 0x00, 0x00, 0x00, 0x00, 0x00, 0x00, 0x00, 0x00, 0x00, 0x00, 0x00, 0x00, 0x00, 0x00, 0x00,
 0x00, 0x00, 0x00, 0x00, 0x00, 0x00, 0x00, 0x00, 0x00, 0x70, 0x48, 0x59, 0x73, 0x00, 0x00, 0x1D,
 0x87, 0x00, 0x00, 0x00, 0x00, 0x00, 0x00, 0x00, 0x00, 0x00, 0x00, 0x00, 0x00, 0x00, 0x00, 0x00,
 0x00, 0x00, 0x00, 0x69, 0x92, 0xD8, 0x59, 0x00, 0x00, 0x00, 0x00, 0x49, 0x45, 0x4E, 0x44, 0xAE,
 0x42, 0x60, 0x82]"

section \<open>Rounding to binary64\<close>

text \<open>
  Rounding moves a value by at most half a unit in the last place, leaves an integer
  below \<open>2 ^ 53\<close> as it is, and takes every value from \<open>2 ^ 1024\<close> on to infinity.
\<close>

lemma round_even_error: "\<bar>of_int (round_even m) - m\<bar> \<le> 1 / 2"
proof -
  have "of_int \<lfloor>m\<rfloor> \<le> m" and "m < of_int \<lfloor>m\<rfloor> + 1"
    by linarith+
  then show ?thesis
    by (auto simp: round_even_def Let_def)
qed

lemma round_even_of_int: "round_even (of_int k) = k"
  by (simp add: round_even_def)

lemma bitlen_le:
  assumes "0 < x" and "x < 2 ^ n"
  shows "bitlen x \<le> int n"
proof -
  have "(2::int) ^ nat (bitlen x - 1) \<le> x"
    using bitlen_bounds [OF assms(1)] by simp
  with assms(2) have "(2::int) ^ nat (bitlen x - 1) < 2 ^ n"
    by linarith
  then have "nat (bitlen x - 1) < n"
    by simp
  then show ?thesis
    by linarith
qed

lemma exponent_of_le:
  assumes "0 < q" and "q < 2 ^ n" and "0 < n"
  shows "exponent_of q \<le> int n - 1"
proof (cases "1 \<le> q")
  case True
  then have p: "0 < \<lfloor>q\<rfloor>"
    by linarith
  have "\<lfloor>q\<rfloor> < 2 ^ n"
    using assms(2) by (simp add: floor_less_iff)
  with p have "bitlen \<lfloor>q\<rfloor> \<le> int n"
    by (rule bitlen_le)
  with True show ?thesis
    by (simp add: exponent_of_def)
next
  case False
  have "0 \<le> bitlen (\<lceil>1 / q\<rceil> - 1)"
    by (rule bitlen_nonneg)
  with False assms(3) show ?thesis
    by (simp add: exponent_of_def)
qed

lemma fl_error:
  assumes "0 < q" and "q < 2 ^ 27"
  shows "\<exists>y. fl q = Fin y \<and> \<bar>y - q\<bar> \<le> 1 / 2 ^ 27"
proof -
  define e where "e = max (exponent_of \<bar>q\<bar>) (- 1022)"
  define u :: rat where "u = 2 powi (e - 52)"
  define y where "y = of_int (round_even (\<bar>q\<bar> / u)) * u"
  have "exponent_of q \<le> 26"
    using exponent_of_le [OF assms(1), of 27] assms(2) by simp
  with assms(1) have e: "e \<le> 26"
    by (simp add: e_def)
  have u0: "0 < u"
    by (simp add: u_def zero_less_power_int)
  have "u \<le> 2 powi (- 26)"
    unfolding u_def by (rule power_int_increasing) (use e in simp_all)
  then have u1: "u \<le> 1 / 2 ^ 26"
    by (simp add: power_int_minus field_simps)
  have nz: "(q = 0) = False" and ng: "(q < 0) = False"
    using assms(1) by simp_all
  have "fl q = (if 1023 \<le> e then
              (if 2 powi 1024 \<le> y then (if q < 0 then NInf else PInf)
               else Fin (if q < 0 then - y else y))
            else Fin (if q < 0 then - y else y))"
    unfolding fl_def Let_def e_def u_def y_def by (simp only: nz if_False)
  with e have "fl q = Fin y"
    by (simp add: ng)
  moreover have "\<bar>y - q\<bar> \<le> 1 / 2 ^ 27"
  proof -
    have "\<bar>of_int (round_even (q / u)) - q / u\<bar> \<le> 1 / 2"
      by (rule round_even_error)
    then have "\<bar>of_int (round_even (q / u)) - q / u\<bar> * u \<le> 1 / 2 * u"
      using u0 by (simp add: mult_right_mono)
    moreover have "\<bar>of_int (round_even (q / u)) - q / u\<bar> * u = \<bar>y - q\<bar>"
    proof -
      have "\<bar>of_int (round_even (q / u)) - q / u\<bar> * u
            = \<bar>(of_int (round_even (q / u)) - q / u) * u\<bar>"
        using u0 by (simp add: abs_mult)
      also have "(of_int (round_even (q / u)) - q / u) * u = y - q"
        using u0 assms(1) by (simp add: y_def algebra_simps)
      finally show ?thesis .
    qed
    ultimately have "\<bar>y - q\<bar> \<le> 1 / 2 * u"
      by simp
    with u1 show ?thesis
      by simp
  qed
  ultimately show ?thesis
    by blast
qed

lemma fl_of_nat:
  assumes "n < 2 ^ 53"
  shows "fl (of_nat n) = Fin (of_nat n)"
proof (cases "n = 0")
  case True
  then show ?thesis by (simp add: fl_def)
next
  case False
  define e where "e = bitlen (int n) - 1"
  define k where "k = nat (52 - e)"
  have p: "0 < int n"
    using False by simp
  have "1 \<le> bitlen (int n)"
    using p bitlen_eq_zero_iff [of "int n"] bitlen_nonneg [of "int n"] by linarith
  then have e0: "0 \<le> e"
    by (simp add: e_def)
  have "int n < 2 ^ 53"
    using assms by (metis of_nat_less_iff of_nat_numeral of_nat_power)
  with p have "bitlen (int n) \<le> 53"
    using bitlen_le [of "int n" 53] by simp
  then have e1: "e \<le> 52"
    by (simp add: e_def)
  have x: "exponent_of \<bar>of_nat n\<bar> = e"
    using False by (simp add: exponent_of_def e_def)
  have u: "(2::rat) powi (e - 52) = 1 / 2 ^ k"
  proof -
    have "e - 52 = - int k"
      using e1 by (simp add: k_def)
    then have "(2::rat) powi (e - 52) = 2 powi (- int k)"
      by simp
    also have "\<dots> = inverse (2 powi int k)"
      by (rule power_int_minus)
    also have "\<dots> = 1 / 2 ^ k"
      by (simp add: inverse_eq_divide)
    finally show ?thesis .
  qed
  have m: "\<bar>of_nat n :: rat\<bar> / (1 / 2 ^ k) = of_int (int n * 2 ^ k)"
    by simp
  have nz: "((of_nat n :: rat) = 0) = False" and ng: "((of_nat n :: rat) < 0) = False"
    using False by simp_all
  have mx: "max e (- 1022) = e"
    using e0 by simp
  have hi: "(1023 \<le> e) = False"
    using e1 by simp
  have "fl (of_nat n) = Fin (of_int (round_even (\<bar>of_nat n\<bar> / (1 / 2 ^ k))) * (1 / 2 ^ k))"
    unfolding fl_def Let_def x mx u by (simp only: nz ng hi if_False)
  also have "\<dots> = Fin (of_nat n)"
    by (simp only: m round_even_of_int) simp
  finally show ?thesis .
qed

lemma round_even_ge_floor: "\<lfloor>m\<rfloor> \<le> round_even m"
  by (simp add: round_even_def Let_def)

lemma fl_overflow:
  assumes "2 ^ 1024 \<le> q"
  shows "fl q = PInf"
proof -
  define x where "x = \<lfloor>q\<rfloor>"
  define e where "e = bitlen x - 1"
  define u :: rat where "u = 2 powi (e - 52)"
  define y where "y = of_int (round_even (\<bar>q\<bar> / u)) * u"
  have q0: "0 < q"
    using assms by (rule less_le_trans [rotated]) simp
  have "(2::rat) ^ 1024 = of_int (2 ^ 1024)"
    by simp
  with assms have "of_int (2 ^ 1024) \<le> q"
    by (simp only:)
  then have x1: "2 ^ 1024 \<le> x"
    unfolding x_def by (simp only: le_floor_iff)
  then have x0: "0 < x"
    by (rule less_le_trans [rotated]) simp
  have "x < 2 ^ nat (bitlen x)"
    using bitlen_bounds [OF x0] by simp
  with x1 have "(2::int) ^ 1024 < 2 ^ nat (bitlen x)"
    by (rule le_less_trans)
  then have "1024 < nat (bitlen x)"
    by (simp only: power_strict_increasing_iff) 
  then have e1: "1024 \<le> e"
    by (simp add: e_def)
  have u0: "0 < u"
    by (simp add: u_def zero_less_power_int)
  have "(2::int) ^ nat e \<le> x"
    using bitlen_bounds [OF x0] by (simp add: e_def)
  then have "(of_int (2 ^ nat e) :: rat) \<le> of_int x"
    by (simp only: of_int_le_iff)
  moreover have "(of_int x :: rat) \<le> q"
    by (simp add: x_def)
  ultimately have "(of_int (2 ^ nat e) :: rat) \<le> q"
    by (rule order_trans)
  moreover have "(of_int (2 ^ nat e) :: rat) = 2 powi e"
    using e1 by (simp add: power_int_def)
  ultimately have eq: "(2::rat) powi e \<le> q"
    by simp
  have "(2::rat) powi (52 + (e - 52)) = 2 powi 52 * 2 powi (e - 52)"
    by (rule power_int_add) simp
  moreover have "52 + (e - 52) = e"
    by simp
  ultimately have ue: "(2::rat) powi e = 2 powi 52 * u"
    by (simp only: u_def)
  have p52: "(of_int (2 ^ 52) :: rat) = 2 powi 52"
    by simp
  have "(2::rat) powi 52 = 2 powi 52 * u / u"
    using u0 by simp
  also have "\<dots> \<le> q / u"
    using eq u0 by (simp only: ue [symmetric] divide_right_mono less_imp_le)
  finally have "(of_int (2 ^ 52) :: rat) \<le> q / u"
    by (simp only: p52)
  then have "2 ^ 52 \<le> \<lfloor>q / u\<rfloor>"
    by (simp only: le_floor_iff)
  with round_even_ge_floor [of "q / u"] have "2 ^ 52 \<le> round_even (q / u)"
    by (rule order_trans [rotated])
  then have "(of_int (2 ^ 52) :: rat) \<le> of_int (round_even (q / u))"
    by (simp only: of_int_le_iff)
  then have "(of_int (2 ^ 52) :: rat) * u \<le> of_int (round_even (q / u)) * u"
    using u0 by (simp only: mult_right_mono less_imp_le)
  moreover have "(of_int (2 ^ 52) :: rat) * u = 2 powi e"
    by (simp only: p52 ue)
  moreover have "\<bar>q\<bar> = q"
    using q0 by simp
  ultimately have "(2::rat) powi e \<le> y"
    by (simp add: y_def)
  moreover have "(2::rat) powi 1024 \<le> 2 powi e"
    by (rule power_int_increasing) (use e1 in simp_all)
  ultimately have y1: "(2::rat) powi 1024 \<le> y"
    by (rule order_trans [rotated])
  have x: "exponent_of \<bar>q\<bar> = e"
    using q0 assms by (simp add: exponent_of_def e_def x_def)
  have mx: "max e (- 1022) = e"
    using e1 by simp
  have hi: "(1023 \<le> e) = True"
    using e1 by simp
  have nz: "(q = 0) = False" and ng: "(q < 0) = False"
    using q0 by simp_all
  have yy: "((2::rat) powi 1024 \<le> of_int (round_even (\<bar>q\<bar> / 2 powi (e - 52))) * 2 powi (e - 52))
      = True"
    using y1 by (simp only: y_def u_def)
  show ?thesis
    unfolding fl_def Let_def x mx by (simp only: nz ng hi yy if_False if_True)
qed

text \<open>Two literals: \<^verbatim>\<open>0.3\<close> is not a binary64 value, and \<^verbatim>\<open>1e400\<close> is beyond the range.\<close>

lemma literal_three_tenths:
  "string_to_number ''0.3'' = Fin (5404319552844595 / 18014398509481984)"
  by code_simp

lemma literal_overflow: "string_to_number ''1e400'' = PInf"
proof -
  have "string_to_number ''1e400'' = fl (10 ^ 400)"
    by (simp add: string_to_number_def trim_def is_ws_def unsigned_decimal_def is_digit_def
        digit_of_def exponent_part_def digits_value_def Let_def del: power_numeral)
  moreover have "(2::rat) ^ 1024 \<le> 10 ^ 400"
    by simp
  ultimately show ?thesis
    by (simp only: fl_overflow)
qed

lemma fl_numeral:
  "numeral k < (2::nat) ^ 53 \<Longrightarrow> fl (numeral k) = Fin (numeral k)"
  using fl_of_nat [of "numeral k"] by simp

text \<open>
  The quotient by the binary64 value of \<^verbatim>\<open>39.37\<close>, rounded to binary64 and then to an
  integer, is the nearest integer to the exact quotient by \<open>3937 / 100\<close>: the two
  roundings move a 32-bit value by less than \<open>2 ^ -25\<close>, and the exact quotient plus
  a half is at least \<open>1 / 7874\<close> away from every integer.
\<close>

lemma fl_3937: "fl (3937 / 100) = Fin (5540834916549263 / 140737488355328)"
  by code_simp

lemma odd_remainder:
  fixes v :: nat
  shows "1 \<le> (200 * int v + 3937) mod 7874 \<and> (200 * int v + 3937) mod 7874 \<le> 7873"
proof -
  have o: "odd (200 * int v + 3937)"
    by simp
  have "\<not> 7874 dvd (200 * int v + 3937)"
  proof
    assume "7874 dvd (200 * int v + 3937)"
    moreover have "(2::int) dvd 7874"
      by simp
    ultimately have "2 dvd (200 * int v + 3937)"
      by (rule dvd_trans [rotated])
    with o show False
      by simp
  qed
  then have "(200 * int v + 3937) mod 7874 \<noteq> 0"
    by (simp add: dvd_eq_mod_eq_0)
  moreover have "0 \<le> (200 * int v + 3937) mod 7874" and "(200 * int v + 3937) mod 7874 < 7874"
    by simp_all
  ultimately show ?thesis
    by linarith
qed

lemma round_quotient:
  assumes "v < 2 ^ 32"
  shows "js_round (fl (of_nat v / (5540834916549263 / 140737488355328)))
           = Fin (of_int ((200 * int v + 3937) div 7874))"
proof (cases "v = 0")
  case True
  have "\<lfloor>1 / 2 :: rat\<rfloor> = 0"
    by (simp add: floor_eq_iff)
  with True show ?thesis
    by (simp add: fl_def)
next
  case False
  define q :: rat where "q = of_nat v / (5540834916549263 / 140737488355328)"
  define t :: rat where "t = of_nat v * 100 / 3937"
  define k where "k = (200 * int v + 3937) div 7874"
  define r where "r = (200 * int v + 3937) mod 7874"
  have v0: "(0::rat) < of_nat v"
    using False by simp
  have v1: "(of_nat v :: rat) < 2 ^ 32"
    using assms by (metis of_nat_less_iff of_nat_numeral of_nat_power)
  have q0: "0 < q"
    using v0 by (simp add: q_def)
  have "q \<le> of_nat v / 32"
    using v0 by (simp add: q_def field_simps)
  with v1 have q1: "q < 2 ^ 27"
    by simp
  obtain y where y: "fl q = Fin y" and ye: "\<bar>y - q\<bar> \<le> 1 / 2 ^ 27"
    using fl_error [OF q0 q1] by blast
  have "q - t = of_nat v * (140737488355328 / 5540834916549263 - 100 / 3937)"
    by (simp add: q_def t_def algebra_simps)
  moreover have "\<bar>140737488355328 / 5540834916549263 - 100 / 3937 :: rat\<bar> \<le> 1 / 2 ^ 58"
    by simp
  ultimately have "\<bar>q - t\<bar> \<le> of_nat v * (1 / 2 ^ 58)"
    using v0 by (simp add: abs_mult mult_left_mono)
  also have "\<dots> \<le> 2 ^ 32 * (1 / 2 ^ 58)"
    using v1 by simp
  finally have qt: "\<bar>q - t\<bar> \<le> 1 / 2 ^ 26"
    by simp
  have "200 * int v + 3937 = 7874 * k + r"
    by (simp add: k_def r_def)
  then have "(of_int (200 * int v + 3937) :: rat) = of_int (7874 * k + r)"
    by simp
  then have th: "t + 1 / 2 = of_int k + of_int r / 7874"
    by (simp add: t_def field_simps)
  have r: "1 \<le> r" "r \<le> 7873"
    using odd_remainder [of v] by (simp_all add: r_def)
  then have "(1::rat) \<le> of_int r" and "(of_int r :: rat) \<le> 7873"
    by linarith+
  then have r': "(1::rat) / 7874 \<le> of_int r / 7874" "(of_int r :: rat) / 7874 \<le> 7873 / 7874"
    by (simp_all add: divide_right_mono)
  have ye': "\<bar>y - q\<bar> \<le> 1 / 134217728"
    using ye by simp
  have qt': "\<bar>q - t\<bar> \<le> 1 / 67108864"
    using qt by simp
  have lo: "of_int k \<le> y + 1 / 2"
    using ye' qt' th r'(1) by linarith
  have hi: "y + 1 / 2 < of_int k + 1"
    using ye' qt' th r'(2) by linarith
  have "\<lfloor>y + 1 / 2\<rfloor> = k"
    using lo hi by (simp add: floor_unique)
  then have "js_round (fl q) = Fin (of_int k)"
    by (simp add: y)
  then show ?thesis
    unfolding q_def k_def .
qed

section \<open>Reading the cursor\<close>

lemma readInt32_length:
  "readInt32 bs = Ok (n, r) \<Longrightarrow> length bs = length r + 4"
  by (auto simp: readInt32_def split: list.splits)

lemma readByte_length:
  "readByte bs = Ok (n, r) \<Longrightarrow> length bs = length r + 1"
  by (auto simp: readByte_def split: list.splits)

lemma bind_Ok_iff: "bind r f = Ok y \<longleftrightarrow> (\<exists>x. r = Ok x \<and> f x = Ok y)"
  by (cases r) (simp_all add: bind_def)

lemma bind_Ok: "bind (Ok x) f = f x"
  by (simp add: bind_def)

lemma readInt32_cons4:
  "readInt32 (a # b # c # d # rest) = Ok (be32 a b c d, rest)"
  by (simp add: readInt32_def)

lemma readInt32_ge4:
  "4 \<le> length bs \<Longrightarrow> readInt32 bs = Ok (u32 (take 4 bs), drop 4 bs)"
  by (auto simp: readInt32_def u32_def split: list.splits)

lemma readByte_ge1:
  "1 \<le> length bs \<Longrightarrow> readByte bs = Ok (unat (hd bs), drop 1 bs)"
  by (cases bs) (simp_all add: readByte_def)

lemma readInt32_crc:
  "readInt32 (quad_bytes q @ rest) = Ok (u32 (quad_bytes q), rest)"
  by (cases q) (simp add: quad_bytes_def readInt32_cons4 u32_def)

lemma chunk_body_consumes:
  assumes "chunk_body vs bytes = Ok (vs', bytes')"
  shows "length bytes' + 12 \<le> length bytes"
  using assms unfolding chunk_body_def
  by (auto simp: bind_Ok_iff split: if_splits dest!: readInt32_length readByte_length)

lemma chunk_loop_short: "length bytes < 4 \<Longrightarrow> chunk_loop vs bytes = Ok vs"
  by (subst chunk_loop.simps) simp

lemma chunk_loop_step:
  "4 \<le> length bytes \<Longrightarrow> chunk_body vs bytes = Ok (vs', bytes') \<Longrightarrow>
     chunk_loop vs bytes = chunk_loop vs' bytes'"
  by (subst chunk_loop.simps) simp

lemma chunk_loop_throw:
  "4 \<le> length bytes \<Longrightarrow> chunk_body vs bytes = Throw e \<Longrightarrow> chunk_loop vs bytes = Throw e"
  by (subst chunk_loop.simps) simp

lemma loop_fuel_enough:
  "length bytes < 12 * n \<Longrightarrow> loop_fuel n vs bytes = Some (chunk_loop vs bytes)"
proof (induction n arbitrary: vs bytes)
  case 0
  then show ?case by simp
next
  case (Suc n)
  show ?case
  proof (cases "4 \<le> length bytes")
    case False
    then show ?thesis by (simp add: chunk_loop_short)
  next
    case True
    show ?thesis
    proof (cases "chunk_body vs bytes")
      case (Throw e)
      with True show ?thesis by (simp add: chunk_loop_throw)
    next
      case (Ok p)
      obtain vs' bytes' where p: "p = (vs', bytes')" by (cases p)
      from Ok p have "length bytes' + 12 \<le> length bytes"
        using chunk_body_consumes by blast
      with Suc.prems have "length bytes' < 12 * n" by simp
      from Suc.IH [OF this] Ok p True show ?thesis by (simp add: chunk_loop_step)
    qed
  qed
qed

section \<open>The parser on chunks\<close>

text \<open>The loop body after the length and the type of a chunk have been read.\<close>

lemma chunk_body_header:
  "chunk_body vs (encode_chunk c @ rest) =
     bind
       (if type_code c = 0x49484452 then
          bind (readInt32 (c_data c @ quad_bytes (c_crc c) @ rest)) (\<lambda>(w, c1).
          bind (readInt32 c1) (\<lambda>(h, c2).
          bind (readInt32 c2) (\<lambda>(x, c3).
          bind (readByte c3) (\<lambda>(y, c4).
          Ok (vs\<lparr>v_width := num w, v_height := num h\<rparr>, c4)))))
        else if type_code c = 0x62615345 then
          bind (readInt32 (c_data c @ quad_bytes (c_crc c) @ rest)) (\<lambda>(b, c1).
          Ok (vs\<lparr>v_baseline := num b\<rparr>, c1))
        else if type_code c = 0x70485973 then
          bind (readInt32 (c_data c @ quad_bytes (c_crc c) @ rest)) (\<lambda>(d, c1).
          bind (readInt32 c1) (\<lambda>(x, c2).
          bind (readByte c2) (\<lambda>(y, c3).
          Ok (vs\<lparr>v_dpi := dpi_of d\<rparr>, c3))))
        else Ok (vs, c_data c @ quad_bytes (c_crc c) @ rest))
       (\<lambda>(vs', b3).
     bind (readInt32 b3) (\<lambda>(crc, b4).
     Ok (vs', b4)))"
proof -
  obtain a b c' d where t: "c_type c = (a, b, c', d)" by (cases "c_type c") auto
  show ?thesis
    unfolding chunk_body_def encode_chunk_def u32_bytes_def
    by (simp add: t quad_bytes_def type_code_def readInt32_cons4 bind_Ok)
qed

lemma chunk_body_chunk:
  assumes "fits c"
  shows "chunk_body vs (encode_chunk c @ rest) = Ok (absorb vs c, rest)"
proof -
  consider (ihdr) "type_code c = 0x49484452"
    | (base) "type_code c \<noteq> 0x49484452" "type_code c = 0x62615345"
    | (phys) "type_code c \<noteq> 0x49484452" "type_code c \<noteq> 0x62615345" "type_code c = 0x70485973"
    | (other) "type_code c \<noteq> 0x49484452" "type_code c \<noteq> 0x62615345" "type_code c \<noteq> 0x70485973"
    by blast
  then show ?thesis
  proof cases
    case ihdr
    with assms have len: "length (c_data c) = 13" by (simp add: fits_def)
    show ?thesis
      by (simp add: chunk_body_header ihdr absorb_def readInt32_ge4 readByte_ge1 len bind_Ok
          field_u32_def readInt32_crc)
  next
    case base
    with assms have len: "length (c_data c) = 4" by (simp add: fits_def)
    show ?thesis
      by (simp add: chunk_body_header base absorb_def readInt32_ge4 len bind_Ok
          field_u32_def readInt32_crc)
  next
    case phys
    with assms have len: "length (c_data c) = 9" by (simp add: fits_def)
    show ?thesis
      by (simp add: chunk_body_header phys absorb_def readInt32_ge4 readByte_ge1 len bind_Ok
          field_u32_def readInt32_crc)
  next
    case other
    with assms have len: "c_data c = []" by (simp add: fits_def)
    show ?thesis
      by (simp add: chunk_body_header other absorb_def len bind_Ok readInt32_crc)
  qed
qed

lemma length_encode_chunk: "12 \<le> length (encode_chunk c)"
  by (cases "c_type c"; cases "c_crc c") (simp add: encode_chunk_def u32_bytes_def quad_bytes_def)

lemma chunk_loop_chunks:
  assumes "list_all fits cs" and "length tail < 4"
  shows "chunk_loop vs (concat (map encode_chunk cs) @ tail) = Ok (foldl absorb vs cs)"
  using assms
proof (induction cs arbitrary: vs)
  case Nil
  then show ?case by (simp add: chunk_loop_short)
next
  case (Cons c cs)
  have "4 \<le> length (encode_chunk c @ concat (map encode_chunk cs) @ tail)"
    using length_encode_chunk [of c] by simp
  moreover have "chunk_body vs (encode_chunk c @ concat (map encode_chunk cs) @ tail)
      = Ok (absorb vs c, concat (map encode_chunk cs) @ tail)"
    using Cons.prems by (simp add: chunk_body_chunk)
  ultimately have "chunk_loop vs (encode_chunk c @ concat (map encode_chunk cs) @ tail)
      = chunk_loop (absorb vs c) (concat (map encode_chunk cs) @ tail)"
    by (rule chunk_loop_step)
  with Cons show ?case by simp
qed

lemma absorb_keeps_dims:
  "type_code c \<noteq> 0x49484452 \<Longrightarrow>
     v_width (absorb vs c) = v_width vs \<and> v_height (absorb vs c) = v_height vs"
  by (simp add: absorb_def)

lemma foldl_absorb_keeps_dims:
  "list_all (\<lambda>c. type_code c \<noteq> 0x49484452) cs \<Longrightarrow>
     v_width (foldl absorb vs cs) = v_width vs \<and> v_height (foldl absorb vs cs) = v_height vs"
  by (induction cs arbitrary: vs) (simp_all add: absorb_keeps_dims)

lemma result_get_png:
  "js_typeof (v_width vs) \<noteq> ''undefined'' \<Longrightarrow>
     result_get (Ok (png_result vs)) ''cw'' = Some (v_width vs) \<and>
     result_get (Ok (png_result vs)) ''ch'' = Some (v_height vs) \<and>
     result_get (Ok (png_result vs)) ''dpi'' = Some (v_dpi vs)"
  by (simp add: result_get_def png_result_def js_get_def Let_def)

lemma getMetricsFromBytes_chunks:
  assumes "length sig = 8" and "list_all fits cs" and "length tail < 4"
  shows "getMetricsFromBytes (sig @ concat (map encode_chunk cs) @ tail)
           = Ok (png_result (foldl absorb init_vars cs))"
proof -
  have "readBytes (sig @ concat (map encode_chunk cs) @ tail) 8
          = Ok (sig, concat (map encode_chunk cs) @ tail)"
    using assms(1) by (simp add: readBytes_def)
  then show ?thesis
    using assms(2,3) by (simp add: getMetricsFromBytes_def bind_Ok chunk_loop_chunks)
qed

lemma be32_less: "be32 a b c d < 2 ^ 32"
proof -
  have "unat a < 256" and "unat b < 256" and "unat c < 256" and "unat d < 256"
    using unsigned_less [of a, where ?'a = nat] unsigned_less [of b, where ?'a = nat]
      unsigned_less [of c, where ?'a = nat] unsigned_less [of d, where ?'a = nat]
    by simp_all
  then show ?thesis
    by (simp add: be32_def)
qed

lemma field_u32_less: "field_u32 d off < 2 ^ 32"
  using be32_less by (simp add: field_u32_def u32_def split: list.splits)

lemma round_exact:
  "js_round (Fin (of_nat v / (3937 / 100))) = Fin (of_nat ((200 * v + 3937) div 7874))"
proof -
  have "(of_nat v :: rat) / (3937 / 100) + 1 / 2 = of_nat (200 * v + 3937) / of_nat 7874"
    by (simp add: field_simps)
  then have "\<lfloor>(of_nat v :: rat) / (3937 / 100) + 1 / 2\<rfloor> = int ((200 * v + 3937) div 7874)"
    by (simp only: floor_divide_of_nat_eq)
  then show ?thesis
    by simp
qed

lemma dpi_of_div:
  assumes "v < 2 ^ 32"
  shows "dpi_of v = num ((200 * v + 3937) div 7874)"
proof -
  have "dpi_of v = JNum (js_round (fl (of_nat v / (5540834916549263 / 140737488355328))))"
    by (simp add: dpi_of_def fl_3937 js_div_def)
  also have "\<dots> = JNum (Fin (of_int ((200 * int v + 3937) div 7874)))"
    by (simp only: round_quotient [OF assms])
  also have "(200 * int v + 3937) div 7874 = int ((200 * v + 3937) div 7874)"
    by (simp add: zdiv_int)
  finally show ?thesis
    by (simp add: num_def)
qed

lemma dpi_of_round:
  "v < 2 ^ 32 \<Longrightarrow> dpi_of v = JNum (js_round (Fin (of_nat v / (3937 / 100))))"
  by (simp only: dpi_of_div round_exact num_def)

lemma absorb_keeps_dpi:
  "type_code c \<noteq> 0x70485973 \<Longrightarrow> v_dpi (absorb vs c) = v_dpi vs"
  by (simp add: absorb_def)

lemma foldl_absorb_keeps_dpi:
  "list_all (\<lambda>c. type_code c \<noteq> 0x70485973) cs \<Longrightarrow> v_dpi (foldl absorb vs cs) = v_dpi vs"
  by (induction cs arbitrary: vs) (simp_all add: absorb_keeps_dpi)

lemma absorb_width_number:
  "js_typeof (v_width vs) = ''number'' \<or> type_code c = 0x49484452 \<Longrightarrow>
     js_typeof (v_width (absorb vs c)) = ''number''"
  by (auto simp: absorb_def num_def)

lemma foldl_absorb_width_number:
  "js_typeof (v_width vs) = ''number'' \<or> list_ex (\<lambda>c. type_code c = 0x49484452) cs \<Longrightarrow>
     js_typeof (v_width (foldl absorb vs cs)) = ''number''"
proof (induction cs arbitrary: vs)
  case Nil
  then show ?case by simp
next
  case (Cons c cs)
  show ?case
  proof (cases "js_typeof (v_width vs) = ''number'' \<or> type_code c = 0x49484452")
    case True
    then have "js_typeof (v_width (absorb vs c)) = ''number''"
      by (rule absorb_width_number)
    then show ?thesis by (simp add: Cons.IH)
  next
    case False
    with Cons.prems have "list_ex (\<lambda>c. type_code c = 0x49484452) cs" by simp
    then show ?thesis by (simp add: Cons.IH)
  qed
qed

lemma applyMetrics_scaled:
  assumes "js_truthy (js_get ar ''cw'')" and "js_truthy (js_get ar ''dpi'')"
  shows "applyMetrics ar img =
     img\<lparr>img_width := Some (JNum (scale96 (js_get ar ''cw'') (js_get ar ''dpi''))),
         img_height := Some (JNum (scale96 (js_get ar ''ch'') (js_get ar ''dpi''))),
         style_verticalAlign :=
           Some (NegPx (js_sub (scale96 (js_get ar ''ch'') (js_get ar ''dpi''))
                               (scale96 (js_get ar ''cb'') (js_get ar ''dpi''))))\<rparr>"
  using assms by (simp add: applyMetrics_def Let_def)

lemma scale96_nat:
  assumes "x * 96 < 2 ^ 53" and "d \<noteq> 0"
  shows "scale96 (num x) (JNum (Fin d)) = fl (of_nat x * 96 / d)"
proof -
  have "fl (of_nat x * 96) = Fin (of_nat x * 96)"
    using fl_of_nat [OF assms(1)] by simp
  with assms(2) show ?thesis
    by (simp add: scale96_def num_def js_mul_def js_div_def)
qed

text \<open>The equations that evaluate the parser on a payload written out byte by byte.\<close>

lemmas eval_png = getMetricsFromBytes_def readBytes_def chunk_loop.simps chunk_body_def bind_def
  readInt32_def readByte_def be32_def init_vars_def png_result_def result_get_def js_get_def
  num_def encode_chunk_def u32_bytes_def quad_bytes_def png_signature_def

section \<open>String methods on texts with a known prefix\<close>

lemma js_indexOf_0: "js_indexOf s pat 0 = find_from pat s 0"
  by (simp add: js_indexOf_def)

lemma js_indexOf_at:
  "k \<le> length s \<Longrightarrow> js_indexOf s pat (int k) = find_from pat (drop k s) k"
  by (simp add: js_indexOf_def min_def)

lemma js_substr_tail:
  assumes "k \<le> length s"
  shows "js_substr s (int k) (int (length s)) = drop k s"
proof -
  have "nat (int (length s) - int k) = length s - k"
    using assms by simp
  with assms show ?thesis
    by (simp add: js_substr_def Let_def min_def max_def)
qed

lemma js_substring_range:
  "a \<le> b \<Longrightarrow> b \<le> length s \<Longrightarrow> js_substring s (int a) (int b) = take (b - a) (drop a s)"
  by (simp add: js_substring_def Let_def min_def max_def)

lemma find_from_single:
  "c \<notin> set v \<Longrightarrow> find_from [c] (v @ c # r) k = int (k + length v)"
  by (induction v arbitrary: k) auto

lemma find_base64:
  "find_from ''base64,'' (''data:image/png;base64,'' @ payload) 0 = 15"
  by simp

lemma find_data_image:
  "find_from ''data:image'' (''data:image/png;base64,'' @ payload) 0 = 0"
  by simp

lemma extract_attr:
  assumes "attr_value_at s name v" and "int (length name) = n"
  shows "js_substring s (js_indexOf s name 0 + n)
           (js_indexOf s [CHR 0x22] (js_indexOf s name 0 + n)) = v"
proof -
  define p where "p = nat (js_indexOf s name 0) + length name"
  from assms have i: "0 \<le> js_indexOf s name 0" and q: "CHR 0x22 \<notin> set v"
    and t: "take (length v + 1) (drop p s) = v @ [CHR 0x22]"
    by (simp_all add: attr_value_at_def Let_def p_def)
  from i assms(2) have pn: "js_indexOf s name 0 + n = int p"
    by (simp add: p_def)
  from t have "length (take (length v + 1) (drop p s)) = length v + 1"
    by simp
  then have len: "p + length v + 1 \<le> length s"
    by (simp add: min_def split: if_splits)
  have d: "drop p s = v @ CHR 0x22 # drop (length v + 1) (drop p s)"
    using append_take_drop_id [of "length v + 1" "drop p s"] t by simp
  have "js_indexOf s [CHR 0x22] (int p) = find_from [CHR 0x22] (drop p s) p"
    using len by (simp add: js_indexOf_at)
  also have "\<dots> = int (p + length v)"
    by (subst d) (rule find_from_single [OF q])
  finally have e: "js_indexOf s [CHR 0x22] (int p) = int (p + length v)" .
  have "js_substring s (int p) (int (p + length v)) = take (p + length v - p) (drop p s)"
    by (rule js_substring_range) (use len in simp_all)
  also have "\<dots> = take (length v) (drop p s)"
    by simp
  also have "\<dots> = v"
    by (subst d) simp
  finally show ?thesis
    by (simp only: pn e)
qed

section \<open>The branches of the sizing\<close>

lemma setImgSize_raster:
  "imageFormat cfg \<noteq> ''svg'' \<Longrightarrow>
     setImgSize cfg img uri True =
       (case b64ToByteArray (payload_of_src img) 88 of
          Throw e \<Rightarrow> (Some e, img)
        | Ok bytes \<Rightarrow> direct_png bytes img)"
  by (simp add: setImgSize_def direct_png_def bind_def split: result.splits)

lemma payload_of_png_src:
  assumes "img_src img = ''data:image/png;base64,'' @ payload"
  shows "payload_of_src img = payload"
proof -
  have "js_indexOf (img_src img) ''base64,'' 0 + 7 = int 22"
    using find_base64 [of payload] by (simp add: assms js_indexOf_0)
  moreover have "22 \<le> length (img_src img)"
    by (simp add: assms)
  ultimately have "payload_of_src img = drop 22 (img_src img)"
    unfolding payload_of_src_def by (simp only: js_substr_tail)
  then show ?thesis
    by (simp add: assms)
qed

lemma fixAfterResize_raster:
  assumes "img_src img = ''data:image/png;base64,'' @ payload"
    and "imageFormat cfg \<noteq> ''svg''"
  shows "fixAfterResize decodeURIComponent cfg img =
           (case b64ToByteArray payload 88 of
              Throw e \<Rightarrow> (Some e, unsized img)
            | Ok bytes \<Rightarrow> direct_png bytes (unsized img))"
proof -
  have s: "img_src (unsized img) = ''data:image/png;base64,'' @ payload"
    by (simp add: unsized_def assms)
  have i: "js_indexOf (img_src (unsized img)) ''data:image'' 0 = 0"
    using find_data_image [of payload] by (simp add: s js_indexOf_0)
  have "fixAfterResize decodeURIComponent cfg img =
      setImgSize cfg (unsized img)
        (js_substring (img_src (unsized img)) 22 (int (length (img_src (unsized img))))) True"
    using i assms(2) unfolding fixAfterResize_def unsized_def [symmetric]
    by (simp add: Let_def)
  then show ?thesis
    by (simp add: setImgSize_raster assms(2) payload_of_png_src [OF s] del: b64ToByteArray.simps)
qed

lemma svg_metrics_of_attrs:
  assumes "attr_value_at s ''width=\"'' w" and "attr_value_at s ''height=\"'' h"
    and "attr_value_at s ''wrs:baseline=\"'' b"
  shows "getMetricsFromSvgString s = Some [''cw'' \<mapsto> JStr w, ''ch'' \<mapsto> JStr h, ''cb'' \<mapsto> JStr b]"
proof -
  have 1: "js_substring s (js_indexOf s ''height=\"'' 0 + 8)
      (js_indexOf s [CHR 0x22] (js_indexOf s ''height=\"'' 0 + 8)) = h"
    by (rule extract_attr [OF assms(2)]) simp
  have 2: "js_substring s (js_indexOf s ''width=\"'' 0 + 7)
      (js_indexOf s [CHR 0x22] (js_indexOf s ''width=\"'' 0 + 7)) = w"
    by (rule extract_attr [OF assms(1)]) simp
  have 3: "js_substring s (js_indexOf s ''wrs:baseline=\"'' 0 + 14)
      (js_indexOf s [CHR 0x22] (js_indexOf s ''wrs:baseline=\"'' 0 + 14)) = b"
    by (rule extract_attr [OF assms(3)]) simp
  show ?thesis
    unfolding getMetricsFromSvgString_def Let_def 1 2 3 by simp
qed

lemma forty_minus_thirty:
  "js_sub (to_number (JStr ''40'')) (to_number (JStr ''30'')) = Fin 10"
  by code_simp

section \<open>The claims about the PNG parser\<close>

text \<open>
  C1, as amended. For a chunk whose type is none of IHDR (0x49484452), baSE (0x62615345)
  and pHYs (0x70485973), one pass of the loop reads the length and the type and then
  skips exactly four more bytes, whatever the length field says: the variables are
  unchanged and the cursor stands four bytes after the type. The next read is on a
  chunk boundary exactly when those four bytes are the whole rest of the chunk, as
  they are for a chunk with an empty body.
\<close>

theorem unknown_chunk_skips_four:
  assumes "type_code c \<noteq> 0x49484452" and "type_code c \<noteq> 0x62615345"
    and "type_code c \<noteq> 0x70485973"
  shows "chunk_body vs (encode_chunk c @ rest)
           = Ok (vs, drop 4 (c_data c @ quad_bytes (c_crc c) @ rest))
         \<and> (chunk_body vs (encode_chunk c @ rest) = Ok (vs, rest) \<longleftrightarrow>
              drop 4 (c_data c @ quad_bytes (c_crc c) @ rest) = rest)"
proof -
  have "4 \<le> length (c_data c @ quad_bytes (c_crc c) @ rest)"
    by (cases "c_crc c") (simp add: quad_bytes_def)
  then show ?thesis
    using assms by (simp add: chunk_body_header bind_Ok readInt32_ge4)
qed

text \<open>An IEND chunk, whose body is empty, followed by two more bytes.\<close>

theorem unknown_chunk_skips_four_witness:
  "chunk_body init_vars
     (encode_chunk \<lparr>c_type = (0x49, 0x45, 0x4E, 0x44), c_data = [],
        c_crc = (0xAE, 0x42, 0x60, 0x82)\<rparr> @ [7, 7])
   = Ok (init_vars, [7, 7])"
  using unknown_chunk_skips_four
    [of "\<lparr>c_type = (0x49, 0x45, 0x4E, 0x44), c_data = [], c_crc = (0xAE, 0x42, 0x60, 0x82)\<rparr>"
        init_vars "[7, 7]"]
  by (simp add: type_code_def be32_def quad_bytes_def)

text \<open>
  The claim as first stated fails on a tEXt chunk with a one-byte body: after the pass
  the cursor still holds the last byte of the CRC, so it is not at the two bytes that
  follow the chunk.
\<close>

theorem unknown_chunk_body_not_skipped:
  "chunk_body init_vars
     (encode_chunk \<lparr>c_type = (0x74, 0x45, 0x58, 0x74), c_data = [0xAA], c_crc = (1, 2, 3, 4)\<rparr>
        @ [9, 9])
   = Ok (init_vars, [4, 9, 9])
   \<and> chunk_body init_vars
     (encode_chunk \<lparr>c_type = (0x74, 0x45, 0x58, 0x74), c_data = [0xAA], c_crc = (1, 2, 3, 4)\<rparr>
        @ [9, 9])
   \<noteq> Ok (init_vars, [9, 9])"
  by (simp add: chunk_body_header type_code_def be32_def quad_bytes_def bind_Ok readInt32_cons4)

text \<open>
  C2, as amended. Take a payload of 8 signature bytes, an IHDR chunk with its 13-byte
  body, then chunks that fit the parser (a 4-byte baSE body, a 9-byte pHYs body, an
  empty body for any other type) none of which is a second IHDR, then fewer than 4
  bytes. The parser returns metrics whose \<^verbatim>\<open>cw\<close> and \<^verbatim>\<open>ch\<close> are the big-endian
  unsigned integers in bytes 0 to 3 and 4 to 7 of the IHDR body.
\<close>

theorem ihdr_dimensions:
  assumes "length sig = 8"
    and "type_code ihdr = 0x49484452" and "length (c_data ihdr) = 13"
    and "list_all fits cs" and "list_all (\<lambda>c. type_code c \<noteq> 0x49484452) cs"
    and "length tail < 4"
  shows "result_get (getMetricsFromBytes
             (sig @ encode_chunk ihdr @ concat (map encode_chunk cs) @ tail)) ''cw''
           = Some (num (field_u32 (c_data ihdr) 0))
       \<and> result_get (getMetricsFromBytes
             (sig @ encode_chunk ihdr @ concat (map encode_chunk cs) @ tail)) ''ch''
           = Some (num (field_u32 (c_data ihdr) 4))"
proof -
  have f: "list_all fits (ihdr # cs)"
    using assms by (simp add: fits_def)
  have "getMetricsFromBytes (sig @ concat (map encode_chunk (ihdr # cs)) @ tail)
          = Ok (png_result (foldl absorb init_vars (ihdr # cs)))"
    using assms(1) f assms(6) by (rule getMetricsFromBytes_chunks)
  moreover have "v_width (foldl absorb init_vars (ihdr # cs)) = num (field_u32 (c_data ihdr) 0)"
    and "v_height (foldl absorb init_vars (ihdr # cs)) = num (field_u32 (c_data ihdr) 4)"
    using assms(2,5) by (simp_all add: foldl_absorb_keeps_dims absorb_def)
  ultimately show ?thesis
    by (simp add: result_get_png num_def)
qed

text \<open>A 100 by 50 image with a baSE chunk (baseline 40) and a pHYs chunk (5669 per metre).\<close>

theorem ihdr_dimensions_witness:
  "result_get (getMetricsFromBytes
      (png_signature
       @ encode_chunk \<lparr>c_type = (0x49, 0x48, 0x44, 0x52),
           c_data = [0, 0, 0, 100, 0, 0, 0, 50, 8, 6, 0, 0, 0],
           c_crc = (0xAA, 0x35, 0x7E, 0xBE)\<rparr>
       @ concat (map encode_chunk
           [\<lparr>c_type = (0x62, 0x61, 0x53, 0x45), c_data = [0, 0, 0, 40],
              c_crc = (0xF5, 0x91, 0x3A, 0x64)\<rparr>,
            \<lparr>c_type = (0x70, 0x48, 0x59, 0x73), c_data = [0, 0, 0x16, 0x25, 0, 0, 0x16, 0x25, 1],
              c_crc = (0x49, 0x52, 0x24, 0xF0)\<rparr>])
       @ [])) ''cw''
   = Some (num 100)"
  using ihdr_dimensions
    [of png_signature
        "\<lparr>c_type = (0x49, 0x48, 0x44, 0x52),
           c_data = [0, 0, 0, 100, 0, 0, 0, 50, 8, 6, 0, 0, 0],
           c_crc = (0xAA, 0x35, 0x7E, 0xBE)\<rparr>"
        "[\<lparr>c_type = (0x62, 0x61, 0x53, 0x45), c_data = [0, 0, 0, 40],
              c_crc = (0xF5, 0x91, 0x3A, 0x64)\<rparr>,
            \<lparr>c_type = (0x70, 0x48, 0x59, 0x73), c_data = [0, 0, 0x16, 0x25, 0, 0, 0x16, 0x25, 1],
              c_crc = (0x49, 0x52, 0x24, 0xF0)\<rparr>]"
        "[]"]
  by (simp add: png_signature_def type_code_def be32_def fits_def field_u32_def u32_def)

text \<open>
  The claim as first stated fails on a well-formed file: signature, IHDR (100 by 50), a
  tEXt chunk with the 16-byte body \<^verbatim>\<open>Title\0xxIHDRabcd\<close>, IEND, each with its correct
  CRC. The parser skips four bytes of the text, reads the bytes \<^verbatim>\<open>IHDR\<close> inside it as
  a chunk type, and returns the width 0x61626364.
\<close>

theorem ihdr_dimensions_overwritten:
  "result_get (getMetricsFromBytes
      (png_signature
       @ encode_chunk \<lparr>c_type = (0x49, 0x48, 0x44, 0x52),
           c_data = [0, 0, 0, 100, 0, 0, 0, 50, 8, 6, 0, 0, 0],
           c_crc = (0xAA, 0x35, 0x7E, 0xBE)\<rparr>
       @ encode_chunk \<lparr>c_type = (0x74, 0x45, 0x58, 0x74),
           c_data = [0x54, 0x69, 0x74, 0x6C, 0x65, 0x00, 0x78, 0x78,
                     0x49, 0x48, 0x44, 0x52, 0x61, 0x62, 0x63, 0x64],
           c_crc = (0x63, 0xEB, 0x33, 0x9F)\<rparr>
       @ encode_chunk \<lparr>c_type = (0x49, 0x45, 0x4E, 0x44), c_data = [],
           c_crc = (0xAE, 0x42, 0x60, 0x82)\<rparr>)) ''cw''
   = Some (num 1633837924)
   \<and> num 1633837924 \<noteq> num 100"
  by (simp add: eval_png)

text \<open>
  C3, as amended. Take a payload of 8 signature bytes, then chunks that all fit the
  parser, among them an IHDR chunk and a pHYs chunk after which no further pHYs chunk
  comes, then fewer than 4 bytes. With \<open>v\<close> the big-endian integer in the first four
  bytes of that pHYs body, the \<^verbatim>\<open>dpi\<close> the parser returns is \<open>round (v / 39.37)\<close>: the
  binary64 division by the binary64 literal and \<^verbatim>\<open>Math.round\<close> give the nearest integer
  to the exact quotient, a tie going up. And whenever the width and the dpi of the
  metrics are present and not zero, the width, height and baseline are each replaced
  by \<^verbatim>\<open>x * 96 / dpi\<close>; the scaled width and height are assigned, and the vertical offset
  is computed from the scaled height and baseline. For an integer \<open>x\<close> with
  \<open>x * 96 < 2 ^ 53\<close> and a dpi \<open>d\<close> other than zero, \<^verbatim>\<open>x * 96 / dpi\<close> is the binary64
  value nearest to the rational \<open>x * 96 / d\<close>: the product is exact and the division
  rounds once.
\<close>

theorem phys_dpi_and_scaling:
  "(length sig = 8 \<and> list_all fits (pre @ [phys] @ post) \<and> type_code phys = 0x70485973
      \<and> list_all (\<lambda>c. type_code c \<noteq> 0x70485973) post
      \<and> list_ex (\<lambda>c. type_code c = 0x49484452) (pre @ [phys] @ post) \<and> length tail < 4
    \<longrightarrow> result_get (getMetricsFromBytes
            (sig @ concat (map encode_chunk (pre @ [phys] @ post)) @ tail)) ''dpi''
          = Some (JNum (js_round (Fin (of_nat (field_u32 (c_data phys) 0) / (3937 / 100))))))
   \<and> (js_truthy (js_get ar ''cw'') \<and> js_truthy (js_get ar ''dpi'')
    \<longrightarrow> applyMetrics ar img =
          img\<lparr>img_width := Some (JNum (scale96 (js_get ar ''cw'') (js_get ar ''dpi''))),
              img_height := Some (JNum (scale96 (js_get ar ''ch'') (js_get ar ''dpi''))),
              style_verticalAlign :=
                Some (NegPx (js_sub (scale96 (js_get ar ''ch'') (js_get ar ''dpi''))
                                    (scale96 (js_get ar ''cb'') (js_get ar ''dpi''))))\<rparr>)
   \<and> (x * 96 < 2 ^ 53 \<and> d \<noteq> 0
    \<longrightarrow> scale96 (num x) (JNum (Fin d)) = fl (of_nat x * 96 / d))"
proof (intro conjI impI)
  assume a: "length sig = 8 \<and> list_all fits (pre @ [phys] @ post) \<and> type_code phys = 0x70485973
      \<and> list_all (\<lambda>c. type_code c \<noteq> 0x70485973) post
      \<and> list_ex (\<lambda>c. type_code c = 0x49484452) (pre @ [phys] @ post) \<and> length tail < 4"
  let ?cs = "pre @ [phys] @ post"
  let ?vs = "foldl absorb init_vars ?cs"
  from a have "getMetricsFromBytes (sig @ concat (map encode_chunk ?cs) @ tail)
      = Ok (png_result ?vs)"
    by (intro getMetricsFromBytes_chunks) simp_all
  moreover from a have "js_typeof (v_width ?vs) = ''number''"
    by (intro foldl_absorb_width_number) auto
  moreover from a have "v_dpi ?vs = dpi_of (field_u32 (c_data phys) 0)"
    by (simp add: foldl_absorb_keeps_dpi absorb_def)
  ultimately show "result_get (getMetricsFromBytes (sig @ concat (map encode_chunk ?cs) @ tail)) ''dpi''
          = Some (JNum (js_round (Fin (of_nat (field_u32 (c_data phys) 0) / (3937 / 100)))))"
    by (simp add: result_get_png dpi_of_round [OF field_u32_less])
next
  assume "js_truthy (js_get ar ''cw'') \<and> js_truthy (js_get ar ''dpi'')"
  then show "applyMetrics ar img =
          img\<lparr>img_width := Some (JNum (scale96 (js_get ar ''cw'') (js_get ar ''dpi''))),
              img_height := Some (JNum (scale96 (js_get ar ''ch'') (js_get ar ''dpi''))),
              style_verticalAlign :=
                Some (NegPx (js_sub (scale96 (js_get ar ''ch'') (js_get ar ''dpi''))
                                    (scale96 (js_get ar ''cb'') (js_get ar ''dpi''))))\<rparr>"
    by (intro applyMetrics_scaled) simp_all
next
  assume "x * 96 < 2 ^ 53 \<and> d \<noteq> 0"
  then show "scale96 (num x) (JNum (Fin d)) = fl (of_nat x * 96 / d)"
    by (intro scale96_nat) simp_all
qed

text \<open>
  The 100 by 50 image with baseline 40 and 5669 pixels per metre: 144 dpi, and the
  sizes the code writes are the binary64 values \<^verbatim>\<open>66.66666666666667\<close> and
  \<^verbatim>\<open>33.333333333333336\<close>, with the offset \<^verbatim>\<open>6.666666666666668\<close>.
\<close>

theorem phys_dpi_and_scaling_witness:
  "result_get (getMetricsFromBytes
      (png_signature
       @ concat (map encode_chunk
          ([\<lparr>c_type = (0x49, 0x48, 0x44, 0x52),
              c_data = [0, 0, 0, 100, 0, 0, 0, 50, 8, 6, 0, 0, 0],
              c_crc = (0xAA, 0x35, 0x7E, 0xBE)\<rparr>,
            \<lparr>c_type = (0x62, 0x61, 0x53, 0x45), c_data = [0, 0, 0, 40],
              c_crc = (0xF5, 0x91, 0x3A, 0x64)\<rparr>]
           @ [\<lparr>c_type = (0x70, 0x48, 0x59, 0x73),
              c_data = [0, 0, 0x16, 0x25, 0, 0, 0x16, 0x25, 1],
              c_crc = (0x49, 0x52, 0x24, 0xF0)\<rparr>]
           @ []))
       @ [])) ''dpi''
   = Some (num 144)
   \<and> applyMetrics [''cw'' \<mapsto> num 100, ''ch'' \<mapsto> num 50, ''cb'' \<mapsto> num 40, ''dpi'' \<mapsto> num 144]
        \<lparr>img_src = '''', img_width = None, img_height = None,
         style_verticalAlign = None, style_maxWidth = None\<rparr>
     = \<lparr>img_src = '''', img_width = Some (JNum (Fin (4691249611844267 / 70368744177664))),
        img_height = Some (JNum (Fin (4691249611844267 / 140737488355328))),
        style_verticalAlign = Some (NegPx (Fin (1876499844737707 / 281474976710656))),
        style_maxWidth = None\<rparr>
   \<and> scale96 (num 100) (JNum (Fin 144)) = Fin (4691249611844267 / 70368744177664)"
proof -
  note w = phys_dpi_and_scaling
    [of png_signature
        "[\<lparr>c_type = (0x49, 0x48, 0x44, 0x52),
              c_data = [0, 0, 0, 100, 0, 0, 0, 50, 8, 6, 0, 0, 0],
              c_crc = (0xAA, 0x35, 0x7E, 0xBE)\<rparr>,
            \<lparr>c_type = (0x62, 0x61, 0x53, 0x45), c_data = [0, 0, 0, 40],
              c_crc = (0xF5, 0x91, 0x3A, 0x64)\<rparr>]"
        "\<lparr>c_type = (0x70, 0x48, 0x59, 0x73),
              c_data = [0, 0, 0x16, 0x25, 0, 0, 0x16, 0x25, 1],
              c_crc = (0x49, 0x52, 0x24, 0xF0)\<rparr>"
        "[]" "[]"
        "[''cw'' \<mapsto> num 100, ''ch'' \<mapsto> num 50, ''cb'' \<mapsto> num 40, ''dpi'' \<mapsto> num 144]"
        "\<lparr>img_src = '''', img_width = None, img_height = None,
         style_verticalAlign = None, style_maxWidth = None\<rparr>"
        100 144]
  have d: "JNum (js_round (Fin (of_nat 5669 / (3937 / 100)))) = num 144"
    by (simp only: round_exact num_def) simp
  have f: "field_u32 [0, 0, 0x16, 0x25, 0, 0, 0x16, 0x25, 1] 0 = 5669"
    by (simp add: field_u32_def u32_def be32_def)
  have sw: "scale96 (JNum (Fin 100)) (JNum (Fin 144)) = Fin (4691249611844267 / 70368744177664)"
    by code_simp
  have sh: "scale96 (JNum (Fin 50)) (JNum (Fin 144)) = Fin (4691249611844267 / 140737488355328)"
    by code_simp
  have sb: "scale96 (JNum (Fin 40)) (JNum (Fin 144)) = Fin (7505999378950827 / 281474976710656)"
    by code_simp
  have hb: "js_sub (Fin (4691249611844267 / 140737488355328))
      (Fin (7505999378950827 / 281474976710656)) = Fin (1876499844737707 / 281474976710656)"
    by code_simp
  have r: "fl (200 / 3) = Fin (4691249611844267 / 70368744177664)"
    by code_simp
  have a: "result_get (getMetricsFromBytes
      (png_signature
       @ concat (map encode_chunk
          ([\<lparr>c_type = (0x49, 0x48, 0x44, 0x52),
              c_data = [0, 0, 0, 100, 0, 0, 0, 50, 8, 6, 0, 0, 0],
              c_crc = (0xAA, 0x35, 0x7E, 0xBE)\<rparr>,
            \<lparr>c_type = (0x62, 0x61, 0x53, 0x45), c_data = [0, 0, 0, 40],
              c_crc = (0xF5, 0x91, 0x3A, 0x64)\<rparr>]
           @ [\<lparr>c_type = (0x70, 0x48, 0x59, 0x73),
              c_data = [0, 0, 0x16, 0x25, 0, 0, 0x16, 0x25, 1],
              c_crc = (0x49, 0x52, 0x24, 0xF0)\<rparr>]
           @ []))
       @ [])) ''dpi''
   = Some (JNum (js_round (Fin (of_nat (field_u32 [0, 0, 0x16, 0x25, 0, 0, 0x16, 0x25, 1] 0)
        / (3937 / 100)))))"
    using w [THEN conjunct1]
    by (simp add: png_signature_def fits_def type_code_def be32_def)
  have b: "applyMetrics [''cw'' \<mapsto> num 100, ''ch'' \<mapsto> num 50, ''cb'' \<mapsto> num 40, ''dpi'' \<mapsto> num 144]
        \<lparr>img_src = '''', img_width = None, img_height = None,
         style_verticalAlign = None, style_maxWidth = None\<rparr>
     = \<lparr>img_src = '''', img_width = Some (JNum (Fin (4691249611844267 / 70368744177664))),
        img_height = Some (JNum (Fin (4691249611844267 / 140737488355328))),
        style_verticalAlign = Some (NegPx (Fin (1876499844737707 / 281474976710656))),
        style_maxWidth = None\<rparr>"
    using w [THEN conjunct2, THEN conjunct1]
    by (simp add: js_get_def num_def sw sh sb hb)
  have c: "scale96 (num 100) (JNum (Fin 144)) = Fin (4691249611844267 / 70368744177664)"
    using w [THEN conjunct2, THEN conjunct2] by (simp add: r)
  from a b c show ?thesis
    by (simp only: f d)
qed

text \<open>
  The claim as first stated fails on a well-formed file in which a gAMA chunk with
  its 4-byte body stands before the pHYs chunk: the parser is four bytes behind when
  it reaches the pHYs chunk, reads its length field as the type, and returns no dpi,
  where the claim gives \<open>round (5669 / 39.37) = 144\<close>. And the scaled sizes are not
  the raw values multiplied by \<open>96 / dpi\<close>: for the width 100 at 144 dpi the code
  writes the binary64 value of \<^verbatim>\<open>100 * 96 / 144\<close>, which is neither \<open>200 / 3\<close> nor the
  binary64 product \<^verbatim>\<open>100 * (96 / 144)\<close>.
\<close>

theorem phys_not_reached:
  "result_get (getMetricsFromBytes
      (png_signature
       @ encode_chunk \<lparr>c_type = (0x49, 0x48, 0x44, 0x52),
           c_data = [0, 0, 0, 100, 0, 0, 0, 50, 8, 6, 0, 0, 0],
           c_crc = (0xAA, 0x35, 0x7E, 0xBE)\<rparr>
       @ encode_chunk \<lparr>c_type = (0x67, 0x41, 0x4D, 0x41), c_data = [0x00, 0x00, 0xB1, 0x8F],
           c_crc = (0x0B, 0xFC, 0x61, 0x05)\<rparr>
       @ encode_chunk \<lparr>c_type = (0x70, 0x48, 0x59, 0x73),
           c_data = [0x00, 0x00, 0x16, 0x25, 0x00, 0x00, 0x16, 0x25, 0x01],
           c_crc = (0x49, 0x52, 0x24, 0xF0)\<rparr>
       @ encode_chunk \<lparr>c_type = (0x49, 0x45, 0x4E, 0x44), c_data = [],
           c_crc = (0xAE, 0x42, 0x60, 0x82)\<rparr>)) ''dpi''
   = Some JUndefined
   \<and> field_u32 [0x00, 0x00, 0x16, 0x25, 0x00, 0x00, 0x16, 0x25, 0x01] 0 = 5669
   \<and> dpi_of 5669 = num 144
   \<and> scale96 (num 100) (num 144) = Fin (4691249611844267 / 70368744177664)
   \<and> js_mul (Fin 100) (js_div (Fin 96) (Fin 144)) = Fin (2345624805922133 / 35184372088832)"
proof -
  have s: "scale96 (num 100) (num 144) = Fin (4691249611844267 / 70368744177664)"
    by code_simp
  have m: "js_mul (Fin 100) (js_div (Fin 96) (Fin 144)) = Fin (2345624805922133 / 35184372088832)"
    by code_simp
  have p: "result_get (getMetricsFromBytes
      (png_signature
       @ encode_chunk \<lparr>c_type = (0x49, 0x48, 0x44, 0x52),
           c_data = [0, 0, 0, 100, 0, 0, 0, 50, 8, 6, 0, 0, 0],
           c_crc = (0xAA, 0x35, 0x7E, 0xBE)\<rparr>
       @ encode_chunk \<lparr>c_type = (0x67, 0x41, 0x4D, 0x41), c_data = [0x00, 0x00, 0xB1, 0x8F],
           c_crc = (0x0B, 0xFC, 0x61, 0x05)\<rparr>
       @ encode_chunk \<lparr>c_type = (0x70, 0x48, 0x59, 0x73),
           c_data = [0x00, 0x00, 0x16, 0x25, 0x00, 0x00, 0x16, 0x25, 0x01],
           c_crc = (0x49, 0x52, 0x24, 0xF0)\<rparr>
       @ encode_chunk \<lparr>c_type = (0x49, 0x45, 0x4E, 0x44), c_data = [],
           c_crc = (0xAE, 0x42, 0x60, 0x82)\<rparr>)) ''dpi''
   = Some JUndefined
   \<and> field_u32 [0x00, 0x00, 0x16, 0x25, 0x00, 0x00, 0x16, 0x25, 0x01] 0 = 5669
   \<and> dpi_of 5669 = num 144"
    by (simp add: eval_png field_u32_def u32_def dpi_of_div)
  from p s m show ?thesis
    by (simp only: simp_thms)
qed

text \<open>
  C8. The chunk loop ends on every byte sequence. With fewer than 4 bytes it returns at
  once with the variables it has, without an error. A pass that completes leaves at
  least 12 bytes fewer (the length, the type and the final 4-byte read) and the loop
  goes on from there. So a run of at most \<open>length bytes div 12 + 1\<close> passes reaches the
  result of the loop: the bounded loop never runs out of passes.
\<close>

theorem chunk_loop_progress:
  "(length bytes < 4 \<longrightarrow> chunk_loop vs bytes = Ok vs)
   \<and> (\<forall>vs' bytes'. chunk_body vs bytes = Ok (vs', bytes') \<longrightarrow>
          length bytes' + 12 \<le> length bytes \<and>
          (4 \<le> length bytes \<longrightarrow> chunk_loop vs bytes = chunk_loop vs' bytes'))
   \<and> loop_fuel (Suc (length bytes div 12)) vs bytes = Some (chunk_loop vs bytes)"
proof (intro conjI allI impI)
  assume "length bytes < 4"
  then show "chunk_loop vs bytes = Ok vs" by (rule chunk_loop_short)
next
  fix vs' bytes'
  assume "chunk_body vs bytes = Ok (vs', bytes')"
  then show "length bytes' + 12 \<le> length bytes" by (rule chunk_body_consumes)
next
  fix vs' bytes'
  assume "chunk_body vs bytes = Ok (vs', bytes')" and "4 \<le> length bytes"
  then show "chunk_loop vs bytes = chunk_loop vs' bytes'" by (simp add: chunk_loop_step)
next
  have "length bytes < 12 * Suc (length bytes div 12)"
    by (simp add: algebra_simps)
  then show "loop_fuel (Suc (length bytes div 12)) vs bytes = Some (chunk_loop vs bytes)"
    by (rule loop_fuel_enough)
qed

text \<open>Three bytes end the loop at once; a 15-byte input takes one pass and leaves three.\<close>

theorem chunk_loop_progress_witness:
  "chunk_loop init_vars [1, 2, 3] = Ok init_vars
   \<and> chunk_loop init_vars [0, 0, 0, 1, 0x74, 0x45, 0x58, 0x74, 0xAA, 1, 2, 3, 4, 9, 9]
       = chunk_loop init_vars [4, 9, 9]
   \<and> loop_fuel (Suc (length [1, 2, 3 :: byte] div 12)) init_vars [1, 2, 3]
       = Some (chunk_loop init_vars [1, 2, 3])"
proof -
  have b: "chunk_body init_vars [0, 0, 0, 1, 0x74, 0x45, 0x58, 0x74, 0xAA, 1, 2, 3, 4, 9, 9]
       = Ok (init_vars, [4, 9, 9])"
    by (simp add: chunk_body_def bind_def readInt32_def be32_def)
  note w1 = chunk_loop_progress [of "[1, 2, 3]" init_vars]
  note w2 = chunk_loop_progress
    [of "[0, 0, 0, 1, 0x74, 0x45, 0x58, 0x74, 0xAA, 1, 2, 3, 4, 9, 9]" init_vars]
  have c1: "chunk_loop init_vars [1, 2, 3] = Ok init_vars"
    using w1 [THEN conjunct1] by simp
  have c2: "length [4, 9, 9 :: byte] + 12
        \<le> length [0, 0, 0, 1, 0x74, 0x45, 0x58, 0x74, 0xAA, 1, 2, 3, 4, 9, 9 :: byte]
      \<and> (4 \<le> length [0, 0, 0, 1, 0x74, 0x45, 0x58, 0x74, 0xAA, 1, 2, 3, 4, 9, 9 :: byte] \<longrightarrow>
      chunk_loop init_vars [0, 0, 0, 1, 0x74, 0x45, 0x58, 0x74, 0xAA, 1, 2, 3, 4, 9, 9]
       = chunk_loop init_vars [4, 9, 9])"
    using w2 [THEN conjunct2, THEN conjunct1, rule_format, OF b] .
  have c3: "loop_fuel (Suc (length [1, 2, 3 :: byte] div 12)) init_vars [1, 2, 3]
       = Some (chunk_loop init_vars [1, 2, 3])"
    using w1 [THEN conjunct2, THEN conjunct2] .
  from c2 have c4: "chunk_loop init_vars [0, 0, 0, 1, 0x74, 0x45, 0x58, 0x74, 0xAA, 1, 2, 3, 4, 9, 9]
       = chunk_loop init_vars [4, 9, 9]"
    by simp
  from c1 c3 c4 show ?thesis
    by (intro conjI) simp_all
qed

section \<open>The claims about the SVG parser and the sizing\<close>

text \<open>
  C4 says that sizing writes nothing when no width can be recovered. On SVG text
  without a \<^verbatim>\<open>width\<close> attribute the code does write: \<^verbatim>\<open>indexOf\<close> returns \<open>-1\<close>, the
  substring taken at \<open>-1 + 7\<close> is a non-empty piece of the markup, and it is assigned
  as the width. This theorem evaluates \<^verbatim>\<open>setImgSize\<close> on \<^verbatim>\<open><svg></svg>\<close>.
\<close>

theorem svg_without_width_is_sized:
  "setImgSize \<lparr>imageFormat = ''svg'', saveMode = ''xml''\<rparr>
      \<lparr>img_src = '''', img_width = None, img_height = None,
       style_verticalAlign = None, style_maxWidth = None\<rparr>
      ''<svg></svg>'' True
   = (None,
      \<lparr>img_src = '''', img_width = Some (JStr ''<svg><''), img_height = Some (JStr ''<svg></''),
       style_verticalAlign = Some (NegPx NaN), style_maxWidth = None\<rparr>)"
  by code_simp

text \<open>
  C5 says that no vertical-align style is written when the baseline is absent. The code
  assigns \<^verbatim>\<open>"-" + (height - baseline) + "px"\<close> without a test; with no baseline that is
  \<^verbatim>\<open>"-NaNpx"\<close>. This theorem evaluates lines 72 to 86 on metrics without \<^verbatim>\<open>cb\<close>, and
  \<^verbatim>\<open>setImgSize\<close> on the data URI of a PNG file that holds the signature and an IHDR
  chunk only.
\<close>

theorem absent_baseline_writes_style:
  "applyMetrics [''cw'' \<mapsto> num 100, ''ch'' \<mapsto> num 50, ''dpi'' \<mapsto> JUndefined]
      \<lparr>img_src = '''', img_width = None, img_height = None,
       style_verticalAlign = None, style_maxWidth = None\<rparr>
   = \<lparr>img_src = '''', img_width = Some (num 100), img_height = Some (num 50),
       style_verticalAlign = Some (NegPx NaN), style_maxWidth = None\<rparr>
   \<and> setImgSize \<lparr>imageFormat = ''png'', saveMode = ''xml''\<rparr>
      \<lparr>img_src = ''data:image/png;base64,iVBORw0KGgoAAAANSUhEUgAAAGQAAAAyCAYAAACqNX6+'',
       img_width = None, img_height = None, style_verticalAlign = None, style_maxWidth = None\<rparr>
      ''iVBORw0KGgoAAAANSUhEUgAAAGQAAAAyCAYAAACqNX6+'' True
   = (None,
      \<lparr>img_src = ''data:image/png;base64,iVBORw0KGgoAAAANSUhEUgAAAGQAAAAyCAYAAACqNX6+'',
       img_width = Some (num 100), img_height = Some (num 50),
       style_verticalAlign = Some (NegPx NaN), style_maxWidth = None\<rparr>)"
proof -
  let ?img = "\<lparr>img_src = ''data:image/png;base64,iVBORw0KGgoAAAANSUhEUgAAAGQAAAAyCAYAAACqNX6+'',
       img_width = None, img_height = None, style_verticalAlign = None, style_maxWidth = None\<rparr>"
  have p: "payload_of_src ?img = ''iVBORw0KGgoAAAANSUhEUgAAAGQAAAAyCAYAAACqNX6+''"
    by code_simp
  have d: "b64ToByteArray ''iVBORw0KGgoAAAANSUhEUgAAAGQAAAAyCAYAAACqNX6+'' 88
      = Ok [0x89, 0x50, 0x4E, 0x47, 0x0D, 0x0A, 0x1A, 0x0A, 0x00, 0x00, 0x00, 0x0D, 0x49, 0x48,
            0x44, 0x52, 0x00, 0x00, 0x00, 0x64, 0x00, 0x00, 0x00, 0x32, 0x08, 0x06, 0x00, 0x00,
            0x00, 0xAA, 0x35, 0x7E, 0xBE]"
    by code_simp
  have g: "direct_png [0x89, 0x50, 0x4E, 0x47, 0x0D, 0x0A, 0x1A, 0x0A, 0x00, 0x00, 0x00, 0x0D, 0x49, 0x48,
            0x44, 0x52, 0x00, 0x00, 0x00, 0x64, 0x00, 0x00, 0x00, 0x32, 0x08, 0x06, 0x00, 0x00,
            0x00, 0xAA, 0x35, 0x7E, 0xBE] ?img
      = (None, ?img\<lparr>img_width := Some (num 100), img_height := Some (num 50),
           style_verticalAlign := Some (NegPx NaN)\<rparr>)"
    by (simp add: direct_png_def eval_png applyMetrics_def js_sub_def)
  have a: "applyMetrics [''cw'' \<mapsto> num 100, ''ch'' \<mapsto> num 50, ''dpi'' \<mapsto> JUndefined]
      \<lparr>img_src = '''', img_width = None, img_height = None,
       style_verticalAlign = None, style_maxWidth = None\<rparr>
   = \<lparr>img_src = '''', img_width = Some (num 100), img_height = Some (num 50),
       style_verticalAlign = Some (NegPx NaN), style_maxWidth = None\<rparr>"
    by (simp add: applyMetrics_def js_get_def num_def js_sub_def)
  show ?thesis
    by (simp add: a setImgSize_raster p d g del: b64ToByteArray.simps)
qed

text \<open>
  C6, as amended. For SVG text in which the first occurrence of \<^verbatim>\<open>width="\<close> is followed
  by \<^verbatim>\<open>120"\<close>, the first occurrence of \<^verbatim>\<open>height="\<close> by \<^verbatim>\<open>40"\<close> and the first occurrence
  of \<^verbatim>\<open>wrs:baseline="\<close> by \<^verbatim>\<open>30"\<close>, the extraction yields width 120, height 40 and
  baseline 30, and the sizing (SVG format, save mode other than base64) assigns them
  with the vertical-align style \<^verbatim>\<open>"-10px"\<close>.
\<close>

theorem svg_attributes_sized:
  assumes "attr_value_at s ''width=\"'' ''120''" and "attr_value_at s ''height=\"'' ''40''"
    and "attr_value_at s ''wrs:baseline=\"'' ''30''"
    and "imageFormat cfg = ''svg''" and "saveMode cfg \<noteq> ''base64''"
  shows "result_get (Ok (getMetricsFromSvgString s)) ''cw'' = Some (JStr ''120'')
       \<and> result_get (Ok (getMetricsFromSvgString s)) ''ch'' = Some (JStr ''40'')
       \<and> result_get (Ok (getMetricsFromSvgString s)) ''cb'' = Some (JStr ''30'')
       \<and> setImgSize cfg img s True =
           (None, img\<lparr>img_width := Some (JStr ''120''), img_height := Some (JStr ''40''),
                      style_verticalAlign := Some (NegPx (Fin 10))\<rparr>)"
proof -
  note m = svg_metrics_of_attrs [OF assms(1,2,3)]
  have "applyMetrics [''cw'' \<mapsto> JStr ''120'', ''ch'' \<mapsto> JStr ''40'', ''cb'' \<mapsto> JStr ''30''] img
      = img\<lparr>img_width := Some (JStr ''120''), img_height := Some (JStr ''40''),
                      style_verticalAlign := Some (NegPx (Fin 10))\<rparr>"
    using forty_minus_thirty by (simp add: applyMetrics_def js_get_def Let_def)
  then show ?thesis
    using assms(4,5) by (simp add: m result_get_def js_get_def setImgSize_def)
qed

text \<open>The text of the spec's example, inside an \<^verbatim>\<open>svg\<close> tag.\<close>

theorem svg_attributes_sized_witness:
  "setImgSize \<lparr>imageFormat = ''svg'', saveMode = ''xml''\<rparr>
      \<lparr>img_src = '''', img_width = None, img_height = None,
       style_verticalAlign = None, style_maxWidth = None\<rparr>
      ''<svg width=\"120\" height=\"40\" wrs:baseline=\"30\">'' True
   = (None,
      \<lparr>img_src = '''', img_width = Some (JStr ''120''), img_height = Some (JStr ''40''),
       style_verticalAlign = Some (NegPx (Fin 10)), style_maxWidth = None\<rparr>)"
proof -
  have 1: "attr_value_at ''<svg width=\"120\" height=\"40\" wrs:baseline=\"30\">'' ''width=\"'' ''120''"
    by code_simp
  have 2: "attr_value_at ''<svg width=\"120\" height=\"40\" wrs:baseline=\"30\">'' ''height=\"'' ''40''"
    by code_simp
  have 3: "attr_value_at ''<svg width=\"120\" height=\"40\" wrs:baseline=\"30\">'' ''wrs:baseline=\"'' ''30''"
    by code_simp
  show ?thesis
    using svg_attributes_sized [OF 1 2 3, of "\<lparr>imageFormat = ''svg'', saveMode = ''xml''\<rparr>"
      "\<lparr>img_src = '''', img_width = None, img_height = None,
       style_verticalAlign = None, style_maxWidth = None\<rparr>"]
    by simp
qed

text \<open>
  The claim as first stated fails on a text that holds all three substrings after a
  \<^verbatim>\<open>stroke-width="2"\<close>: the first match of \<^verbatim>\<open>width="\<close> lies inside \<^verbatim>\<open>stroke-width="\<close>,
  and the width assigned is 2.
\<close>

theorem svg_first_match_wins:
  "setImgSize \<lparr>imageFormat = ''svg'', saveMode = ''xml''\<rparr>
      \<lparr>img_src = '''', img_width = None, img_height = None,
       style_verticalAlign = None, style_maxWidth = None\<rparr>
      ''<svg stroke-width=\"2\" width=\"120\" height=\"40\" wrs:baseline=\"30\">'' True
   = (None,
      \<lparr>img_src = '''', img_width = Some (JStr ''2''), img_height = Some (JStr ''40''),
       style_verticalAlign = Some (NegPx (Fin 10)), style_maxWidth = None\<rparr>)"
  by code_simp

lemma resized_payload:
  "resized_src = ''data:image/png;base64,'' @ drop 22 resized_src"
  by (simp add: resized_src_def)

lemma resized_capped:
  "b64ToByteArray (drop 22 resized_src) 88 = Ok (take 88 resized_bytes)"
  unfolding resized_src_def resized_bytes_def by code_simp

lemma resized_full:
  "b64ToByteArray (drop 22 resized_src) (length (drop 22 resized_src)) = Ok resized_bytes"
  unfolding resized_src_def resized_bytes_def by code_simp

lemma resized_direct_capped:
  "direct_png (take 88 resized_bytes) (unsized resized_img)
     = (None, \<lparr>img_src = resized_src, img_width = Some (num 100), img_height = Some (num 50),
          style_verticalAlign = Some (NegPx (Fin 10)), style_maxWidth = Some ''none''\<rparr>)"
  by (simp add: resized_bytes_def direct_png_def eval_png applyMetrics_def js_sub_def fl_numeral
      unsized_def resized_img_def)

lemma resized_direct_full:
  "direct_png resized_bytes (unsized resized_img)
     = (None, \<lparr>img_src = resized_src, img_width = Some (num 50), img_height = Some (num 25),
          style_verticalAlign = Some (NegPx (Fin 5)), style_maxWidth = Some ''none''\<rparr>)"
  by (simp add: resized_bytes_def direct_png_def eval_png applyMetrics_def js_sub_def js_mul_def
      js_div_def scale96_def dpi_of_div fl_numeral unsized_def resized_img_def)

text \<open>
  C7, as amended. For every image whose \<^verbatim>\<open>src\<close> is \<^verbatim>\<open>data:image/png;base64,\<close> followed
  by a payload, with a raster format configured, the resize path gives the result of
  direct PNG parsing and normalisation of the bytes that decoding the payload with the
  cap of 88 bytes yields, on the image without its old sizes; a payload that does not
  decode leaves the image without sizes.
\<close>

theorem resize_is_capped_direct:
  assumes "img_src img = ''data:image/png;base64,'' @ payload"
    and "imageFormat cfg \<noteq> ''svg''"
  shows "fixAfterResize decodeURIComponent cfg img =
           (case b64ToByteArray payload 88 of
              Throw e \<Rightarrow> (Some e, unsized img)
            | Ok bytes \<Rightarrow> direct_png bytes (unsized img))"
  using assms by (rule fixAfterResize_raster)

text \<open>The image above: its 88 first bytes end inside the private chunk.\<close>

theorem resize_is_capped_direct_witness:
  "fixAfterResize Ok \<lparr>imageFormat = ''png'', saveMode = ''xml''\<rparr> resized_img
     = (None, \<lparr>img_src = resized_src, img_width = Some (num 100), img_height = Some (num 50),
          style_verticalAlign = Some (NegPx (Fin 10)), style_maxWidth = Some ''none''\<rparr>)"
proof -
  have s: "img_src resized_img = ''data:image/png;base64,'' @ drop 22 resized_src"
    using resized_payload by (simp add: resized_img_def)
  have "fixAfterResize Ok \<lparr>imageFormat = ''png'', saveMode = ''xml''\<rparr> resized_img
      = direct_png (take 88 resized_bytes) (unsized resized_img)"
    using resize_is_capped_direct [OF s, of "\<lparr>imageFormat = ''png'', saveMode = ''xml''\<rparr>" Ok]
    by (simp add: resized_capped del: b64ToByteArray.simps)
  then show ?thesis
    by (simp only: resized_direct_capped)
qed

text \<open>
  The claim as first stated compares with all the bytes the payload encodes. On the
  image above the two differ: the body of the private chunk holds the bytes \<^verbatim>\<open>pHYs\<close>
  and 7559 where the parser, four bytes behind, reads a chunk type. Parsing all 131
  bytes finds 192 dpi there and halves the sizes; the resize path stops at byte 88 and
  does not.
\<close>

theorem resize_differs_from_full_parse:
  "fixAfterResize Ok \<lparr>imageFormat = ''png'', saveMode = ''xml''\<rparr> resized_img
     = (None, \<lparr>img_src = resized_src, img_width = Some (num 100), img_height = Some (num 50),
          style_verticalAlign = Some (NegPx (Fin 10)), style_maxWidth = Some ''none''\<rparr>)
   \<and> b64ToByteArray (drop 22 resized_src) (length (drop 22 resized_src)) = Ok resized_bytes
   \<and> direct_png resized_bytes (unsized resized_img)
     = (None, \<lparr>img_src = resized_src, img_width = Some (num 50), img_height = Some (num 25),
          style_verticalAlign = Some (NegPx (Fin 5)), style_maxWidth = Some ''none''\<rparr>)"
proof -
  have s: "img_src resized_img = ''data:image/png;base64,'' @ drop 22 resized_src"
    using resized_payload by (simp add: resized_img_def)
  have "fixAfterResize Ok \<lparr>imageFormat = ''png'', saveMode = ''xml''\<rparr> resized_img
      = direct_png (take 88 resized_bytes) (unsized resized_img)"
    using fixAfterResize_raster [OF s, of "\<lparr>imageFormat = ''png'', saveMode = ''xml''\<rparr>" Ok]
    by (simp add: resized_capped del: b64ToByteArray.simps)
  then show ?thesis
    by (simp only: resized_direct_capped resized_full resized_direct_full simp_thms)
qed

text \<open>
  C9. For every string, \<^verbatim>\<open>getMetricsFromSvgString\<close> returns an array whose \<^verbatim>\<open>cw\<close> and
  \<^verbatim>\<open>ch\<close> entries are strings: its guard takes \<^verbatim>\<open>typeof\<close> of a boolean, which is the
  non-empty string \<^verbatim>\<open>"boolean"\<close>, so the guard always holds. The PNG parser, in
  contrast, returns \<^verbatim>\<open>undefined\<close> for a payload without an IHDR chunk.
\<close>

theorem svg_always_metrics:
  "(\<exists>m w h. getMetricsFromSvgString s = Some m \<and> m ''cw'' = Some (JStr w)
        \<and> m ''ch'' = Some (JStr h))
   \<and> js_truthy (JStr (js_typeof (JBool b)))
   \<and> getMetricsFromBytes [0, 0, 0, 0, 0, 0, 0, 0] = Ok None"
  by (simp add: getMetricsFromSvgString_def Let_def eval_png)

text \<open>
  C10. With a JSON response, in the raster branch and in the SVG branch with the
  base64 save mode, the result of \<^verbatim>\<open>setImgSize\<close> is the same for any two values of
  its \<^verbatim>\<open>uri\<close> argument on the same image and configuration: the payload comes from
  the \<^verbatim>\<open>src\<close> of the image.
\<close>

theorem uri_ignored:
  assumes "imageFormat cfg \<noteq> ''svg'' \<or> saveMode cfg = ''base64''"
  shows "setImgSize cfg img uri1 True = setImgSize cfg img uri2 True"
  using assms by (auto simp: setImgSize_def)

text \<open>A PNG data URI as \<^verbatim>\<open>src\<close>, sized once with its payload as \<^verbatim>\<open>uri\<close> and once with another string.\<close>

theorem uri_ignored_witness:
  "setImgSize \<lparr>imageFormat = ''png'', saveMode = ''xml''\<rparr>
      \<lparr>img_src = ''data:image/png;base64,iVBORw0KGgoAAAANSUhEUgAAAGQAAAAyCAYAAACqNX6+'',
       img_width = None, img_height = None, style_verticalAlign = None, style_maxWidth = None\<rparr>
      ''iVBORw0KGgoAAAANSUhEUgAAAGQAAAAyCAYAAACqNX6+'' True
   = setImgSize \<lparr>imageFormat = ''png'', saveMode = ''xml''\<rparr>
      \<lparr>img_src = ''data:image/png;base64,iVBORw0KGgoAAAANSUhEUgAAAGQAAAAyCAYAAACqNX6+'',
       img_width = None, img_height = None, style_verticalAlign = None, style_maxWidth = None\<rparr>
      ''unrelated'' True"
  using uri_ignored [of "\<lparr>imageFormat = ''png'', saveMode = ''xml''\<rparr>"]
  by simp

end
